theory Spec2Isabelle
  imports Complex_Main "HOL-Library.AList"
begin

section \<open>JavaScript numbers\<close>

text \<open>
  Every number of \<^verbatim>\<open>app.js\<close> is an IEEE 754 binary64 value. A finite one is carried by its
  exact rational value, and each arithmetic operation computes the exact result and rounds
  it to the nearest binary64 value, ties to even, as the hardware does. The sign of a zero
  is not tracked: a zero divisor counts as \<open>+0\<close>, which is what the number read from a
  field holding \<^verbatim>\<open>0\<close> is; for a divisor that the code holds as \<open>-0\<close> the infinity of
  the quotient would have the other sign.
\<close>

datatype jsnum = Fin rat | PInf | NInf | NaN

definition pow2 :: "int \<Rightarrow> rat" where
  "pow2 k = (if 0 \<le> k then 2 ^ nat k else 1 / 2 ^ nat (- k))"

definition rhe_pick :: "int \<Rightarrow> rat \<Rightarrow> int" where
  "rhe_pick f d =
     (if d < 1 / 2 then f else if 1 / 2 < d then f + 1 else if even f then f else f + 1)"

definition round_half_even :: "rat \<Rightarrow> int" where
  "round_half_even q = rhe_pick \<lfloor>q\<rfloor> (q - of_int \<lfloor>q\<rfloor>)"

text \<open>The binade of a positive rational: the \<open>e\<close> with \<open>2 ^ e \<le> a < 2 ^ (e + 1)\<close>.\<close>

function binade :: "rat \<Rightarrow> int" where
  "binade a =
     (if a \<le> 0 then 0
      else if 2 \<le> a then binade (a / 2) + 1
      else if a < 1 then binade (a * 2) - 1
      else 0)"
  by pat_completeness auto
termination
proof -
  have floor_half_less: "\<lfloor>b / 2\<rfloor> < \<lfloor>b\<rfloor>" if "2 \<le> b" for b :: rat
  proof -
    have "b / 2 \<le> b - 1" using that by simp
    also have "b - 1 < of_int \<lfloor>b\<rfloor>" by linarith
    finally show ?thesis by (simp add: floor_less_iff)
  qed
  show ?thesis
  proof (relation "measure (\<lambda>a. if 1 \<le> a then nat \<lfloor>a\<rfloor> else nat \<lfloor>1 / a\<rfloor> + 1)")
  show "wf (measure (\<lambda>a::rat. if 1 \<le> a then nat \<lfloor>a\<rfloor> else nat \<lfloor>1 / a\<rfloor> + 1))"
    by simp
next
  fix a :: rat
  assume a: "\<not> a \<le> 0" "2 \<le> a"
  have "\<lfloor>a / 2\<rfloor> < \<lfloor>a\<rfloor>" using a floor_half_less by blast
  moreover have "0 \<le> \<lfloor>a / 2\<rfloor>" using a by simp
  ultimately show "(a / 2, a) \<in> measure (\<lambda>a. if 1 \<le> a then nat \<lfloor>a\<rfloor> else nat \<lfloor>1 / a\<rfloor> + 1)"
    using a by auto
next
  fix a :: rat
  assume a: "\<not> a \<le> 0" "\<not> 2 \<le> a" "a < 1"
  show "(a * 2, a) \<in> measure (\<lambda>a. if 1 \<le> a then nat \<lfloor>a\<rfloor> else nat \<lfloor>1 / a\<rfloor> + 1)"
  proof (cases "1 \<le> a * 2")
    case True
    then have "\<lfloor>a * 2\<rfloor> = 1" using a by linarith
    moreover have "1 \<le> \<lfloor>1 / a\<rfloor>" using a by (simp add: le_floor_iff)
    ultimately show ?thesis using a True by auto
  next
    case False
    have e: "1 / (a * 2) = (1 / a) / 2" by simp
    have "2 \<le> 1 / a" using a False by (simp add: field_simps)
    then have "\<lfloor>(1 / a) / 2\<rfloor> < \<lfloor>1 / a\<rfloor>" by (rule floor_half_less)
    moreover have "0 \<le> \<lfloor>(1 / a) / 2\<rfloor>" using a by simp
    ultimately show ?thesis using a False unfolding in_measure e
      by (simp del: One_nat_def)
  qed
  qed
qed

declare binade.simps [simp del]

text \<open>
  Rounding a magnitude to the 53-bit grid of its binade (the subnormal grid below
  \<open>2 ^ - 1022\<close>), then the overflow to an infinity from \<open>2 ^ 1024\<close> on.
\<close>

definition round_to :: "rat \<Rightarrow> int \<Rightarrow> rat" where
  "round_to a k = of_int (round_half_even (a / pow2 k)) * pow2 k"

definition round_mag :: "rat \<Rightarrow> rat" where
  "round_mag a = round_to a (max (binade a) (- 1022) - 52)"

definition overflow :: "bool \<Rightarrow> rat \<Rightarrow> jsnum" where
  "overflow neg r =
     (if pow2 1024 \<le> r then (if neg then NInf else PInf) else Fin (if neg then - r else r))"

definition round64 :: "rat \<Rightarrow> jsnum" where
  "round64 x = overflow (x < 0) (round_mag \<bar>x\<bar>)"

text \<open>A rational is a binary64 value when rounding leaves it alone.\<close>

definition is_double :: "rat \<Rightarrow> bool" where
  "is_double x = (round64 x = Fin x)"

text \<open>A decimal literal of the source denotes the binary64 value nearest to it.\<close>

definition js_lit :: "rat \<Rightarrow> jsnum" where
  "js_lit x = round64 x"

fun nneg :: "jsnum \<Rightarrow> jsnum" where
  "nneg (Fin a) = Fin (- a)"
| "nneg PInf = NInf"
| "nneg NInf = PInf"
| "nneg NaN = NaN"

fun nadd :: "jsnum \<Rightarrow> jsnum \<Rightarrow> jsnum" where
  "nadd (Fin a) (Fin b) = round64 (a + b)"
| "nadd NaN _ = NaN"
| "nadd _ NaN = NaN"
| "nadd PInf NInf = NaN"
| "nadd NInf PInf = NaN"
| "nadd PInf _ = PInf"
| "nadd _ PInf = PInf"
| "nadd NInf _ = NInf"
| "nadd _ NInf = NInf"

definition nsub :: "jsnum \<Rightarrow> jsnum \<Rightarrow> jsnum" where
  "nsub a b = nadd a (nneg b)"

fun nmul :: "jsnum \<Rightarrow> jsnum \<Rightarrow> jsnum" where
  "nmul (Fin a) (Fin b) = round64 (a * b)"
| "nmul NaN _ = NaN"
| "nmul _ NaN = NaN"
| "nmul PInf (Fin b) = (if b = 0 then NaN else if 0 < b then PInf else NInf)"
| "nmul NInf (Fin b) = (if b = 0 then NaN else if 0 < b then NInf else PInf)"
| "nmul (Fin a) PInf = (if a = 0 then NaN else if 0 < a then PInf else NInf)"
| "nmul (Fin a) NInf = (if a = 0 then NaN else if 0 < a then NInf else PInf)"
| "nmul PInf PInf = PInf"
| "nmul PInf NInf = NInf"
| "nmul NInf PInf = NInf"
| "nmul NInf NInf = PInf"

fun ndiv :: "jsnum \<Rightarrow> jsnum \<Rightarrow> jsnum" where
  "ndiv (Fin a) (Fin b) =
     (if b = 0 then (if a = 0 then NaN else if 0 < a then PInf else NInf)
      else round64 (a / b))"
| "ndiv NaN _ = NaN"
| "ndiv _ NaN = NaN"
| "ndiv (Fin a) PInf = Fin 0"
| "ndiv (Fin a) NInf = Fin 0"
| "ndiv PInf (Fin b) = (if 0 \<le> b then PInf else NInf)"
| "ndiv NInf (Fin b) = (if 0 \<le> b then NInf else PInf)"
| "ndiv PInf PInf = NaN"
| "ndiv PInf NInf = NaN"
| "ndiv NInf PInf = NaN"
| "ndiv NInf NInf = NaN"

text \<open>The comparison \<^verbatim>\<open>a >= b\<close>: false as soon as one side is \<open>NaN\<close>.\<close>

fun nge :: "jsnum \<Rightarrow> jsnum \<Rightarrow> bool" where
  "nge (Fin a) (Fin b) = (b \<le> a)"
| "nge NaN _ = False"
| "nge _ NaN = False"
| "nge PInf _ = True"
| "nge _ NInf = True"
| "nge (Fin a) PInf = False"
| "nge NInf (Fin b) = False"
| "nge NInf PInf = False"

fun is_finite :: "jsnum \<Rightarrow> bool" where
  "is_finite (Fin a) = True"
| "is_finite _ = False"

section \<open>Values and objects\<close>

text \<open>
  The values the engine stores in an object: a number, \<^verbatim>\<open>null\<close> (what a JSON round trip
  leaves of a non-finite number) and \<^verbatim>\<open>undefined\<close> (what reading a missing property gives).
  An arithmetic operator converts its operands with ToNumber first.
\<close>

datatype jsval = Num jsnum | Null | Undefined

fun to_number :: "jsval \<Rightarrow> jsnum" where
  "to_number (Num n) = n"
| "to_number Null = Fin 0"
| "to_number Undefined = NaN"

definition js_add :: "jsval \<Rightarrow> jsval \<Rightarrow> jsval" where
  "js_add a b = Num (nadd (to_number a) (to_number b))"

definition js_sub :: "jsval \<Rightarrow> jsval \<Rightarrow> jsval" where
  "js_sub a b = Num (nsub (to_number a) (to_number b))"

definition js_mul :: "jsval \<Rightarrow> jsval \<Rightarrow> jsval" where
  "js_mul a b = Num (nmul (to_number a) (to_number b))"

definition js_div :: "jsval \<Rightarrow> jsval \<Rightarrow> jsval" where
  "js_div a b = Num (ndiv (to_number a) (to_number b))"

definition js_neg :: "jsval \<Rightarrow> jsval" where
  "js_neg a = Num (nneg (to_number a))"

text \<open>A value that is a number of the engine: a binary64 value, an infinity or \<open>NaN\<close>.\<close>

fun numeric :: "jsval \<Rightarrow> bool" where
  "numeric (Num (Fin r)) = is_double r"
| "numeric (Num _) = True"
| "numeric _ = False"


text \<open>
  An object is the list of its own properties in insertion order, which is the order of
  \<^verbatim>\<open>Object.keys\<close> for the identifier-like keys used here. \<^verbatim>\<open>o[k] = v\<close> is
  \<^const>\<open>AList.update\<close>: it replaces the value in place or appends a new property, and
  \<^verbatim>\<open>o[k]\<close> reads the own property or gives \<^verbatim>\<open>undefined\<close>.

  This is what JavaScript does for field names, in the sense of \<open>field_name\<close> below.
  Three things are outside it: reading an absent key that names a member of
  \<^verbatim>\<open>Object.prototype\<close> finds the inherited member, assigning a number to
  \<^verbatim>\<open>__proto__\<close> creates no property, and \<^verbatim>\<open>Object.keys\<close> lists keys that are array
  indices first. The statements about reading and writing fields are therefore about
  well-formed objects: no key twice, every key a field name.
\<close>

type_synonym obj = "(string \<times> jsval) list"

definition obj_keys :: "obj \<Rightarrow> string list" where
  "obj_keys a = map fst a"

definition obj_get :: "obj \<Rightarrow> string \<Rightarrow> jsval" where
  "obj_get a k = (case map_of a k of Some v \<Rightarrow> v | None \<Rightarrow> Undefined)"

definition obj_set :: "obj \<Rightarrow> string \<Rightarrow> jsval \<Rightarrow> obj" where
  "obj_set a k v = AList.update k v a"

text \<open>The own property names of \<^verbatim>\<open>Object.prototype\<close>.\<close>

definition prototype_names :: "string list" where
  "prototype_names =
     [''__proto__'', ''constructor'', ''hasOwnProperty'', ''isPrototypeOf'',
      ''propertyIsEnumerable'', ''toLocaleString'', ''toString'', ''valueOf'',
      ''__defineGetter__'', ''__defineSetter__'', ''__lookupGetter__'', ''__lookupSetter__'']"

text \<open>
  A field name: not a member name of \<^verbatim>\<open>Object.prototype\<close>, and not a string of digits
  (which covers every array index).
\<close>

definition field_name :: "string \<Rightarrow> bool" where
  "field_name k =
     (k \<notin> set prototype_names \<and> \<not> (k \<noteq> [] \<and> list_all (\<lambda>c. c \<in> set ''0123456789'') k))"

definition well_formed :: "obj \<Rightarrow> bool" where
  "well_formed a = (distinct (obj_keys a) \<and> list_all field_name (obj_keys a))"

section \<open>The integrator\<close>

definition addState :: "obj \<Rightarrow> obj \<Rightarrow> obj" where
  "addState a b =
     foldl (\<lambda>result key. obj_set result key (js_add (obj_get a key) (obj_get b key)))
       [] (obj_keys a)"

definition scaleState :: "obj \<Rightarrow> jsnum \<Rightarrow> obj" where
  "scaleState a factor =
     foldl (\<lambda>result key. obj_set result key (js_mul (obj_get a key) (Num factor)))
       [] (obj_keys a)"

definition rk4Step ::
  "obj \<Rightarrow> obj \<Rightarrow> jsnum \<Rightarrow> jsnum \<Rightarrow> (obj \<Rightarrow> obj \<Rightarrow> jsnum \<Rightarrow> obj) \<Rightarrow> obj" where
  "rk4Step stateObj params t dt derivativeFn =
     (let k1 = derivativeFn stateObj params t;
          k2 = derivativeFn (addState stateObj (scaleState k1 (ndiv dt (Fin 2)))) params
                 (nadd t (ndiv dt (Fin 2)));
          k3 = derivativeFn (addState stateObj (scaleState k2 (ndiv dt (Fin 2)))) params
                 (nadd t (ndiv dt (Fin 2)));
          k4 = derivativeFn (addState stateObj (scaleState k3 dt)) params (nadd t dt);
          combined = addState (addState k1 (scaleState k2 (Fin 2)))
                       (addState (scaleState k3 (Fin 2)) k4)
      in addState stateObj (scaleState combined (ndiv dt (Fin 6))))"

text \<open>
  The update as the specification writes it, with the vector operations elementwise over
  the named fields of their vector argument, and the weighted sum grouped as
  \<open>(k1 + 2 k2) + (2 k3 + k4)\<close>.
\<close>

definition vplus :: "obj \<Rightarrow> obj \<Rightarrow> obj" where
  "vplus a b = map (\<lambda>key. (key, js_add (obj_get a key) (obj_get b key))) (obj_keys a)"

definition vtimes :: "jsnum \<Rightarrow> obj \<Rightarrow> obj" where
  "vtimes c a = map (\<lambda>key. (key, js_mul (Num c) (obj_get a key))) (obj_keys a)"

definition rk4_spec ::
  "obj \<Rightarrow> obj \<Rightarrow> jsnum \<Rightarrow> jsnum \<Rightarrow> (obj \<Rightarrow> obj \<Rightarrow> jsnum \<Rightarrow> obj) \<Rightarrow> obj" where
  "rk4_spec state params t dt derivatives =
     (let k1 = derivatives state params t;
          k2 = derivatives (vplus state (vtimes (ndiv dt (Fin 2)) k1)) params
                 (nadd t (ndiv dt (Fin 2)));
          k3 = derivatives (vplus state (vtimes (ndiv dt (Fin 2)) k2)) params
                 (nadd t (ndiv dt (Fin 2)));
          k4 = derivatives (vplus state (vtimes dt k3)) params (nadd t dt)
      in vplus state
           (vtimes (ndiv dt (Fin 6))
              (vplus (vplus k1 (vtimes (Fin 2) k2)) (vplus (vtimes (Fin 2) k3) k4))))"

section \<open>The integrator on a heap\<close>

text \<open>
  Whether a call builds a new object or writes to one it was given cannot be said of values
  alone. Here the objects live in a heap, the list of the objects allocated so far, and
  are referred to by their position in it. \<^verbatim>\<open>{}\<close> and an object literal allocate,
  \<^verbatim>\<open>result[key] = v\<close> writes to the object at an address, and a derivative function is
  given the heap and the addresses of its arguments and returns the address of its result
  and the heap it leaves. \<open>call f\<close> is a derivative function that only reads its
  arguments and allocates its result, as the three laws of the table do.
\<close>

type_synonym addr = nat

type_synonym heap = "obj list"

definition heap_get :: "heap \<Rightarrow> addr \<Rightarrow> obj" where
  "heap_get h a = (if a < length h then h ! a else [])"

definition alloc :: "heap \<Rightarrow> obj \<Rightarrow> addr \<times> heap" where
  "alloc h a = (length h, h @ [a])"

definition heap_set :: "heap \<Rightarrow> addr \<Rightarrow> string \<Rightarrow> jsval \<Rightarrow> heap" where
  "heap_set h a k v = h[a := obj_set (heap_get h a) k v]"

definition call :: "(obj \<Rightarrow> obj \<Rightarrow> jsnum \<Rightarrow> obj) \<Rightarrow> heap \<Rightarrow> addr \<Rightarrow> addr \<Rightarrow> jsnum \<Rightarrow> addr \<times> heap" where
  "call f h s p t = alloc h (f (heap_get h s) (heap_get h p) t)"

definition addState_h :: "heap \<Rightarrow> addr \<Rightarrow> addr \<Rightarrow> addr \<times> heap" where
  "addState_h h a b =
     (let (result, h0) = alloc h []
      in (result,
          foldl (\<lambda>hp key. heap_set hp result key
                   (js_add (obj_get (heap_get hp a) key) (obj_get (heap_get hp b) key)))
            h0 (obj_keys (heap_get h0 a))))"

definition scaleState_h :: "heap \<Rightarrow> addr \<Rightarrow> jsnum \<Rightarrow> addr \<times> heap" where
  "scaleState_h h a factor =
     (let (result, h0) = alloc h []
      in (result,
          foldl (\<lambda>hp key. heap_set hp result key
                   (js_mul (obj_get (heap_get hp a) key) (Num factor)))
            h0 (obj_keys (heap_get h0 a))))"

definition rk4Step_h ::
  "heap \<Rightarrow> addr \<Rightarrow> addr \<Rightarrow> jsnum \<Rightarrow> jsnum \<Rightarrow>
   (heap \<Rightarrow> addr \<Rightarrow> addr \<Rightarrow> jsnum \<Rightarrow> addr \<times> heap) \<Rightarrow> addr \<times> heap" where
  "rk4Step_h h stateObj params t dt derivativeFn =
     (let (k1, h) = derivativeFn h stateObj params t;
          (sc, h) = scaleState_h h k1 (ndiv dt (Fin 2));
          (y, h) = addState_h h stateObj sc;
          (k2, h) = derivativeFn h y params (nadd t (ndiv dt (Fin 2)));
          (sc, h) = scaleState_h h k2 (ndiv dt (Fin 2));
          (y, h) = addState_h h stateObj sc;
          (k3, h) = derivativeFn h y params (nadd t (ndiv dt (Fin 2)));
          (sc, h) = scaleState_h h k3 dt;
          (y, h) = addState_h h stateObj sc;
          (k4, h) = derivativeFn h y params (nadd t dt);
          (sc, h) = scaleState_h h k2 (Fin 2);
          (left, h) = addState_h h k1 sc;
          (sc, h) = scaleState_h h k3 (Fin 2);
          (right, h) = addState_h h sc k4;
          (combined, h) = addState_h h left right;
          (sc, h) = scaleState_h h combined (ndiv dt (Fin 6))
      in addState_h h stateObj sc)"



section \<open>Model variants\<close>

text \<open>
  A model of the table \<^verbatim>\<open>models\<close>, without its display-only texts (name, description,
  label, code, insights). \<^verbatim>\<open>Math.sin\<close> is implementation-approximated in ECMAScript: the
  table takes the host's sine as a parameter.
\<close>

record parameter =
  p_key :: string
  p_value :: jsnum
  p_min :: jsnum
  p_max :: jsnum
  p_step :: jsnum

record model =
  parameters :: "parameter list"
  model_state :: obj
  derivatives :: "obj \<Rightarrow> obj \<Rightarrow> jsnum \<Rightarrow> obj"
  metric :: "obj \<Rightarrow> obj \<Rightarrow> jsnum"
  series :: "obj \<Rightarrow> obj"

datatype variant = Spring | Predator | Thermal

definition spring_derivatives :: "(jsnum \<Rightarrow> jsnum) \<Rightarrow> obj \<Rightarrow> obj \<Rightarrow> jsnum \<Rightarrow> obj" where
  "spring_derivatives math_sin st params t =
     (let x = obj_get st ''x''; v = obj_get st ''v'';
          mass = obj_get params ''mass''; stiffness = obj_get params ''stiffness'';
          damping = obj_get params ''damping''; force = obj_get params ''force'';
          drive = js_mul force (Num (math_sin (nmul (js_lit (11 / 10)) t)));
          a = js_div (js_add (js_sub (js_mul (js_neg stiffness) x) (js_mul damping v)) drive) mass
      in [(''x'', v), (''v'', a)])"

definition spring_metric :: "obj \<Rightarrow> obj \<Rightarrow> jsnum" where
  "spring_metric st params =
     (let mass = obj_get params ''mass''; stiffness = obj_get params ''stiffness'';
          kinetic = js_mul (js_mul (js_mul (Num (Fin (1 / 2))) mass) (obj_get st ''v''))
                      (obj_get st ''v'');
          potential = js_mul (js_mul (js_mul (Num (Fin (1 / 2))) stiffness) (obj_get st ''x''))
                        (obj_get st ''x'')
      in to_number (js_add kinetic potential))"

definition spring :: "(jsnum \<Rightarrow> jsnum) \<Rightarrow> model" where
  "spring math_sin =
     \<lparr>parameters =
        [\<lparr>p_key = ''mass'', p_value = js_lit (12 / 10), p_min = js_lit (2 / 10),
          p_max = Fin 5, p_step = js_lit (1 / 10)\<rparr>,
         \<lparr>p_key = ''stiffness'', p_value = Fin 12, p_min = Fin 1,
          p_max = Fin 40, p_step = Fin (1 / 2)\<rparr>,
         \<lparr>p_key = ''damping'', p_value = js_lit (6 / 10), p_min = js_lit (1 / 10),
          p_max = Fin 3, p_step = js_lit (5 / 100)\<rparr>,
         \<lparr>p_key = ''force'', p_value = js_lit (18 / 10), p_min = Fin 0,
          p_max = Fin 6, p_step = js_lit (1 / 10)\<rparr>],
      model_state = [(''x'', Num (Fin 1)), (''v'', Num (Fin 0))],
      derivatives = spring_derivatives math_sin,
      metric = spring_metric,
      series = (\<lambda>st. [(''primary'', obj_get st ''x''), (''secondary'', obj_get st ''v'')])\<rparr>"

definition predator_derivatives :: "obj \<Rightarrow> obj \<Rightarrow> jsnum \<Rightarrow> obj" where
  "predator_derivatives st params t =
     (let prey = obj_get st ''prey''; predator = obj_get st ''predator'';
          alpha = obj_get params ''alpha''; beta = obj_get params ''beta'';
          delta = obj_get params ''delta''; gamma = obj_get params ''gamma''
      in [(''prey'', js_sub (js_mul alpha prey) (js_mul (js_mul beta prey) predator)),
          (''predator'', js_sub (js_mul (js_mul delta prey) predator) (js_mul gamma predator))])"

definition predator :: model where
  "predator =
     \<lparr>parameters =
        [\<lparr>p_key = ''alpha'', p_value = js_lit (11 / 10), p_min = js_lit (1 / 10),
          p_max = Fin 3, p_step = js_lit (5 / 100)\<rparr>,
         \<lparr>p_key = ''beta'', p_value = js_lit (4 / 10), p_min = js_lit (5 / 100),
          p_max = Fin 2, p_step = js_lit (5 / 100)\<rparr>,
         \<lparr>p_key = ''delta'', p_value = js_lit (3 / 10), p_min = js_lit (5 / 100),
          p_max = Fin 2, p_step = js_lit (5 / 100)\<rparr>,
         \<lparr>p_key = ''gamma'', p_value = js_lit (9 / 10), p_min = js_lit (1 / 10),
          p_max = Fin 3, p_step = js_lit (5 / 100)\<rparr>],
      model_state = [(''prey'', Num (js_lit (14 / 10))), (''predator'', Num (js_lit (8 / 10)))],
      derivatives = predator_derivatives,
      metric = (\<lambda>st params. to_number (js_add (obj_get st ''prey'') (obj_get st ''predator''))),
      series = (\<lambda>st. [(''primary'', obj_get st ''prey''),
                        (''secondary'', obj_get st ''predator'')])\<rparr>"

definition thermal_derivatives :: "(jsnum \<Rightarrow> jsnum) \<Rightarrow> obj \<Rightarrow> obj \<Rightarrow> jsnum \<Rightarrow> obj" where
  "thermal_derivatives math_sin st params t =
     (let tempA = obj_get st ''tempA''; tempB = obj_get st ''tempB'';
          capA = obj_get params ''capA''; capB = obj_get params ''capB'';
          conduct = obj_get params ''conduct''; heater = obj_get params ''heater'';
          external = Num (nadd (Fin 1)
                       (nmul (js_lit (6 / 10)) (math_sin (nmul (js_lit (4 / 10)) t))));
          flux = js_mul conduct (js_sub tempB tempA)
      in [(''tempA'', js_div (js_add flux (js_mul heater external)) capA),
          (''tempB'', js_div (js_add (js_neg flux) (js_mul (Num (js_lit (4 / 10))) external))
                        capB)])"

definition thermal :: "(jsnum \<Rightarrow> jsnum) \<Rightarrow> model" where
  "thermal math_sin =
     \<lparr>parameters =
        [\<lparr>p_key = ''capA'', p_value = Fin 6, p_min = Fin 1,
          p_max = Fin 12, p_step = Fin (1 / 2)\<rparr>,
         \<lparr>p_key = ''capB'', p_value = Fin (9 / 2), p_min = Fin 1,
          p_max = Fin 12, p_step = Fin (1 / 2)\<rparr>,
         \<lparr>p_key = ''conduct'', p_value = js_lit (16 / 10), p_min = js_lit (1 / 10),
          p_max = Fin 5, p_step = js_lit (1 / 10)\<rparr>,
         \<lparr>p_key = ''heater'', p_value = js_lit (32 / 10), p_min = Fin 0,
          p_max = Fin 8, p_step = js_lit (1 / 10)\<rparr>],
      model_state = [(''tempA'', Num (js_lit (22 / 10))), (''tempB'', Num (js_lit (11 / 10)))],
      derivatives = thermal_derivatives math_sin,
      metric = (\<lambda>st params.
                 to_number (js_div (js_add (obj_get st ''tempA'') (obj_get st ''tempB''))
                   (Num (Fin 2)))),
      series = (\<lambda>st. [(''primary'', obj_get st ''tempA''),
                        (''secondary'', obj_get st ''tempB'')])\<rparr>"

fun models0 :: "(jsnum \<Rightarrow> jsnum) \<Rightarrow> variant \<Rightarrow> model" where
  "models0 math_sin Spring = spring math_sin"
| "models0 math_sin Predator = predator"
| "models0 math_sin Thermal = thermal math_sin"

section \<open>The simulation session\<close>

text \<open>
  The module's mutable globals, the texts it writes to the page (the numbers behind
  \<^verbatim>\<open>elapsedTime\<close>, \<^verbatim>\<open>stepCount\<close> and \<^verbatim>\<open>energyMetric\<close>, and which message
  \<^verbatim>\<open>canvasStatus\<close> shows), and the number of callbacks handed to
  \<^verbatim>\<open>requestAnimationFrame\<close> that have not run yet. The table of models is part of the
  state because a parameter edit writes into it; \<^verbatim>\<open>currentModel\<close> refers to one of its
  entries.
\<close>

datatype status = Ready | Running | Paused | Complete | NoCanvas

record session =
  models :: "variant \<Rightarrow> model"
  currentModel :: variant
  state :: obj
  time :: jsnum
  step :: jsnum
  running :: bool
  history :: "obj list"
  elapsedTime :: jsnum
  stepCount :: jsnum
  energyMetric :: jsnum
  canvasStatus :: status
  pending :: nat

text \<open>
  What the page supplies to a handler: the numbers read from the two inputs
  (\<^verbatim>\<open>Number(stepSizeInput.value)\<close>, \<^verbatim>\<open>Number(timeHorizonInput.value)\<close>) and whether the
  canvas has a 2D context.
\<close>

record host =
  stepSizeInput :: jsnum
  timeHorizonInput :: jsnum
  ctx :: bool

text \<open>\<^verbatim>\<open>JSON.parse(JSON.stringify(obj))\<close> on an object of numbers.\<close>

fun json_value :: "jsval \<Rightarrow> jsval" where
  "json_value (Num (Fin r)) = Num (Fin r)"
| "json_value (Num PInf) = Null"
| "json_value (Num NInf) = Null"
| "json_value (Num NaN) = Null"
| "json_value Null = Null"
| "json_value Undefined = Undefined"

definition deepCopy :: "obj \<Rightarrow> obj" where
  "deepCopy a = map (\<lambda>(k, v). (k, json_value v)) (filter (\<lambda>(k, v). v \<noteq> Undefined) a)"

definition getParams :: "session \<Rightarrow> obj" where
  "getParams s =
     foldl (\<lambda>params param. obj_set params (p_key param) (Num (p_value param)))
       [] (parameters (models s (currentModel s)))"

definition updateMetric :: "session \<Rightarrow> session" where
  "updateMetric s =
     s\<lparr>energyMetric := metric (models s (currentModel s)) (state s) (getParams s)\<rparr>"

definition drawPlot :: "host \<Rightarrow> session \<Rightarrow> session" where
  "drawPlot h s = (if \<not> ctx h then s\<lparr>canvasStatus := NoCanvas\<rparr> else s)"

definition resetSimulation :: "host \<Rightarrow> session \<Rightarrow> session" where
  "resetSimulation h s =
     drawPlot h (updateMetric
       (s\<lparr>state := deepCopy (model_state (models s (currentModel s))),
          time := Fin 0, step := Fin 0, history := [], running := False,
          elapsedTime := Fin 0, stepCount := Fin 0, canvasStatus := Ready\<rparr>))"

text \<open>The sample \<^verbatim>\<open>{ t: time, ...currentModel.series(state) }\<close>.\<close>

definition sample :: "jsnum \<Rightarrow> obj \<Rightarrow> obj" where
  "sample t ser = foldl (\<lambda>result (k, v). obj_set result k v) [(''t'', Num t)] ser"

text \<open>\<^verbatim>\<open>history.push(x); if (history.length > 800) history.shift()\<close>.\<close>

definition push_history :: "obj list \<Rightarrow> obj \<Rightarrow> obj list" where
  "push_history hist x = (let pushed = hist @ [x] in if 800 < length pushed then tl pushed else pushed)"

definition tick :: "host \<Rightarrow> session \<Rightarrow> session" where
  "tick h s =
     (if \<not> running s then s
      else let dt = stepSizeInput h; horizon = timeHorizonInput h
        in if nge (time s) horizon then s\<lparr>running := False, canvasStatus := Complete\<rparr>
           else let params = getParams s;
                    s1 = s\<lparr>state := rk4Step (state s) params (time s) dt
                                      (derivatives (models s (currentModel s)))\<rparr>;
                    s2 = s1\<lparr>time := nadd (time s1) dt\<rparr>;
                    s3 = s2\<lparr>step := nadd (step s2) (Fin 1)\<rparr>;
                    s4 = s3\<lparr>history := push_history (history s3)
                            (sample (time s3) (series (models s3 (currentModel s3)) (state s3)))\<rparr>;
                    s5 = s4\<lparr>elapsedTime := time s4, stepCount := step s4\<rparr>;
                    s6 = drawPlot h (updateMetric s5)
                in s6\<lparr>pending := pending s6 + 1\<rparr>)"

text \<open>The handlers of the three buttons, of the model selector and of a parameter field.\<close>

definition run_click :: "session \<Rightarrow> session" where
  "run_click s =
     (if \<not> running s
      then s\<lparr>running := True, canvasStatus := Running, pending := pending s + 1\<rparr>
      else s)"

definition pause_click :: "session \<Rightarrow> session" where
  "pause_click s = s\<lparr>running := False, canvasStatus := Paused\<rparr>"

definition model_change :: "host \<Rightarrow> variant \<Rightarrow> session \<Rightarrow> session" where
  "model_change h v s = resetSimulation h (s\<lparr>currentModel := v\<rparr>)"

datatype error = TypeError

fun set_value :: "string \<Rightarrow> jsnum \<Rightarrow> parameter list \<Rightarrow> parameter list" where
  "set_value k v [] = []"
| "set_value k v (p # ps) =
     (if p_key p = k then p\<lparr>p_value := v\<rparr> # ps else p # set_value k v ps)"

text \<open>
  The \<^verbatim>\<open>input\<close> listener of a parameter field, given the field's \<^verbatim>\<open>data-key\<close> and the
  number read from it. Writing \<^verbatim>\<open>param.value\<close> when \<^verbatim>\<open>find\<close> returned
  \<^verbatim>\<open>undefined\<close> throws a TypeError.
\<close>

definition param_input :: "string \<Rightarrow> jsnum \<Rightarrow> session \<Rightarrow> error + session" where
  "param_input k v s =
     (case find (\<lambda>item. p_key item = k) (parameters (models s (currentModel s))) of
        None \<Rightarrow> Inl TypeError
      | Some param \<Rightarrow>
          let m = models s (currentModel s);
              m' = m\<lparr>parameters := set_value k v (parameters m)\<rparr>
          in Inr (updateMetric (s\<lparr>models := (models s)(currentModel s := m')\<rparr>)))"

text \<open>
  The browser runs one pending animation-frame callback at a time; with no other event in
  between, it goes on until none is pending.
\<close>

definition frame :: "host \<Rightarrow> session \<Rightarrow> session" where
  "frame h s = (if pending s = 0 then s else tick h (s\<lparr>pending := pending s - 1\<rparr>))"

partial_function (option) run_frames :: "host \<Rightarrow> session \<Rightarrow> session option" where
  "run_frames h s = (if pending s = 0 then Some s else run_frames h (frame h s))"

text \<open>The session once the module has been loaded: its globals, then the first reset.\<close>

definition initial_session :: "(jsnum \<Rightarrow> jsnum) \<Rightarrow> host \<Rightarrow> session" where
  "initial_session math_sin h =
     resetSimulation h
       \<lparr>models = models0 math_sin, currentModel = Spring,
        state = model_state (models0 math_sin Spring),
        time = Fin 0, step = Fin 0, running = False, history = [],
        elapsedTime = Fin 0, stepCount = Fin 0, energyMetric = Fin 0,
        canvasStatus = Ready, pending = 0\<rparr>"

text \<open>
  What can happen to a session: a click on one of the three buttons, a change of the
  model selector, an edit of a parameter field (an edit that throws leaves the session as
  it was), or the browser running a pending frame. Each event comes with what the page
  supplies at that moment.
\<close>

datatype event =
  RunClick | PauseClick | ResetClick | ModelChange variant | ParamInput string jsnum | Frame

fun handle_event :: "host \<Rightarrow> event \<Rightarrow> session \<Rightarrow> session" where
  "handle_event h RunClick s = run_click s"
| "handle_event h PauseClick s = pause_click s"
| "handle_event h ResetClick s = resetSimulation h s"
| "handle_event h (ModelChange v) s = model_change h v s"
| "handle_event h (ParamInput k v) s = (case param_input k v s of Inl e \<Rightarrow> s | Inr s' \<Rightarrow> s')"
| "handle_event h Frame s = frame h s"

definition run_events :: "(jsnum \<Rightarrow> jsnum) \<Rightarrow> host \<Rightarrow> (host \<times> event) list \<Rightarrow> session" where
  "run_events math_sin h0 evs =
     foldl (\<lambda>s (h, e). handle_event h e s) (initial_session math_sin h0) evs"

text \<open>
  Closed examples need a page and a sine. The outcomes stated about them do not depend on
  the sine's values; \<open>sin_standin\<close> keeps the cases ECMAScript prescribes (\<open>NaN\<close> at
  \<open>NaN\<close> and at the infinities, \<open>0\<close> at \<open>0\<close>) and is \<open>0\<close> elsewhere.
\<close>

fun sin_standin :: "jsnum \<Rightarrow> jsnum" where
  "sin_standin (Fin x) = Fin 0"
| "sin_standin _ = NaN"

definition page :: host where
  "page = \<lparr>stepSizeInput = js_lit (5 / 100), timeHorizonInput = Fin 5, ctx = True\<rparr>"

text \<open>
  The clock of a run: the time and the step count after \<open>n\<close> ticks that each found the
  time below the horizon (\<open>None\<close> when one of them did not).
\<close>

fun ticks :: "nat \<Rightarrow> jsnum \<Rightarrow> jsnum \<Rightarrow> jsnum \<times> jsnum \<Rightarrow> (jsnum \<times> jsnum) option" where
  "ticks 0 dt horizon (t, k) = Some (t, k)"
| "ticks (Suc n) dt horizon (t, k) =
     (if nge t horizon then None else ticks n dt horizon (nadd t dt, nadd k (Fin 1)))"

text \<open>
  The page with a step size of 0 and with a horizon below 0; and the oscillator with its
  mass field set to 0, before and after the first frame of a run.
\<close>

definition zero_dt :: host where
  "zero_dt = page\<lparr>stepSizeInput := Fin 0\<rparr>"

definition past_horizon :: host where
  "past_horizon = page\<lparr>timeHorizonInput := Fin (- 1)\<rparr>"

definition unstable_params :: obj where
  "unstable_params =
     [(''mass'', Num (Fin 0)), (''stiffness'', Num (Fin 12)),
      (''damping'', Num (js_lit (6 / 10))), (''force'', Num (js_lit (18 / 10)))]"

definition before_frame :: session where
  "before_frame =
     run_events sin_standin page [(page, ParamInput ''mass'' (Fin 0)), (page, RunClick)]"

definition unstable_run :: session where
  "unstable_run =
     run_events sin_standin page
       [(page, ParamInput ''mass'' (Fin 0)), (page, RunClick), (page, Frame)]"

section \<open>Facts about numbers\<close>

lemma floor_rat_numeral_div [simp]:
  "\<lfloor>(numeral a :: rat) / numeral b\<rfloor> = numeral a div numeral b"
  using floor_divide_of_int_eq[of "numeral a" "numeral b", where ?'a = rat] by simp

lemma overflow_eval:
  "overflow neg r =
     (if 179769313486231590772930519078902473361797697894230657273430081157732675805500963132708477322407536021120113879871393357658789768814416622492847430639474124377767893424865485276302219601246094119453082952085005768838150682342462881473913110540827237163350510684586298239947245938479716304835356329624224137216
         \<le> r
      then (if neg then NInf else PInf) else Fin (if neg then - r else r))"
  by (simp add: overflow_def pow2_def)

lemmas eval64 =
  round64_def overflow_eval round_mag_def round_to_def round_half_even_def rhe_pick_def
  pow2_def binade.simps

lemma round64_zero [simp]: "round64 0 = Fin 0"
  by (simp add: eval64)

lemma pow2_power_int: "pow2 k = power_int 2 k"
  by (simp add: pow2_def power_int_def power_inverse[symmetric] inverse_eq_divide power_one_over)

lemma pow2_pos: "0 < pow2 k"
  by (simp add: pow2_def)

lemma pow2_neq0 [simp]: "pow2 k \<noteq> 0"
  by (simp add: pow2_def)

lemma pow2_mono: "k \<le> j \<Longrightarrow> pow2 k \<le> pow2 j"
  by (simp add: pow2_power_int power_int_increasing)

lemma pow2_succ: "pow2 (k + 1) = 2 * pow2 k"
  by (simp add: pow2_power_int power_int_add)

lemma pow2_pred: "pow2 (k - 1) = pow2 k / 2"
  using pow2_succ[of "k - 1"] by simp

lemma binade_le: "0 < a \<Longrightarrow> pow2 (binade a) \<le> a"
proof (induction a rule: binade.induct)
  case (1 a)
  show ?case
  proof (cases "2 \<le> a")
    case True
    then have "pow2 (binade (a / 2)) \<le> a / 2" using 1 by simp
    then show ?thesis using True 1(3) by (subst binade.simps) (simp add: pow2_succ)
  next
    case False
    show ?thesis
    proof (cases "a < 1")
      case True
      then have "pow2 (binade (a * 2)) \<le> a * 2" using 1 False by simp
      then show ?thesis using True False 1(3) by (subst binade.simps) (simp add: pow2_pred)
    next
      case F: False
      then show ?thesis using False 1(3) by (subst binade.simps) (simp add: pow2_def)
    qed
  qed
qed

lemma rhe_pick_le: "rhe_pick f d \<le> f + 1"
  by (simp add: rhe_pick_def)

lemma round_half_even_le: "of_int (round_half_even q) \<le> q + 1"
proof -
  have "(of_int (round_half_even q) :: rat) \<le> of_int (\<lfloor>q\<rfloor> + 1)"
    unfolding round_half_even_def using rhe_pick_le of_int_le_iff by blast
  also have "\<dots> \<le> q + 1" by simp
  finally show ?thesis .
qed

lemma round_to_le: "round_to a k \<le> a + pow2 k"
proof -
  have "of_int (round_half_even (a / pow2 k)) * pow2 k \<le> (a / pow2 k + 1) * pow2 k"
    using round_half_even_le[of "a / pow2 k"] less_imp_le[OF pow2_pos[of k]]
    by (intro mult_right_mono)
  also have "\<dots> = a + pow2 k"
    by (simp add: field_simps)
  finally show ?thesis by (simp add: round_to_def)
qed

lemma round_mag_bound:
  assumes "0 \<le> a" and "a < pow2 1023"
  shows "round_mag a < pow2 1024"
proof -
  have b: "binade a < 1023"
  proof (cases "0 < a")
    case True
    show ?thesis
    proof (rule ccontr)
      assume "\<not> binade a < 1023"
      then have "pow2 1023 \<le> pow2 (binade a)" by (simp add: pow2_mono)
      then show False using binade_le[OF True] assms by simp
    qed
  next
    case False
    then have "a = 0" using assms by simp
    then show ?thesis by (simp add: binade.simps)
  qed
  have "max (binade a) (- 1022) - 52 \<le> 1023" using b by simp
  then have "pow2 (max (binade a) (- 1022) - 52) \<le> pow2 1023" by (rule pow2_mono)
  then have "round_mag a < pow2 1023 + pow2 1023"
    unfolding round_mag_def using round_to_le[of a "max (binade a) (- 1022) - 52"] assms by linarith
  then show ?thesis using pow2_succ[of 1023] by simp
qed

lemma round64_finite: "\<bar>x\<bar> < pow2 1023 \<Longrightarrow> \<exists>r. round64 x = Fin r"
  using round_mag_bound[of "\<bar>x\<bar>"] by (simp add: round64_def overflow_def)

lemma is_double_bound: "is_double d \<Longrightarrow> \<bar>d\<bar> < pow2 1024"
  unfolding is_double_def round64_def overflow_def
  by (auto split: if_splits)

lemma ndiv_double_finite:
  assumes "is_double d" and "2 \<le> c"
  shows "\<exists>r. ndiv (Fin d) (Fin c) = Fin r"
proof -
  have "\<bar>d / c\<bar> = \<bar>d\<bar> / c" using assms(2) by simp
  also have "\<dots> \<le> \<bar>d\<bar> / 2" using assms(2) by (intro divide_left_mono) simp_all
  also have "\<dots> < pow2 1024 / 2" using is_double_bound[OF assms(1)] by simp
  also have "\<dots> = pow2 1023" using pow2_pred[of 1024] by simp
  finally show ?thesis using assms(2) round64_finite[of "d / c"] by auto
qed

lemma nmul_commute: "nmul a b = nmul b a"
  by (cases a; cases b) (simp_all add: mult.commute)

lemma js_mul_commute: "js_mul a b = js_mul b a"
  by (simp add: js_mul_def nmul_commute)

section \<open>Facts about objects\<close>

lemma map_of_obj_set: "map_of (obj_set a k v) = (map_of a)(k \<mapsto> v)"
  by (simp add: obj_set_def update_conv')

lemma obj_set_fresh: "k \<notin> fst ` set a \<Longrightarrow> obj_set a k v = a @ [(k, v)]"
  unfolding obj_set_def by (induction a) auto

lemma build_map_of:
  "map_of (foldl (\<lambda>result key. obj_set result key (f key)) init ks) k =
     (if k \<in> set ks then Some (f k) else map_of init k)"
proof (induction ks arbitrary: init)
  case Nil
  show ?case by simp
next
  case (Cons x xs)
  show ?case by (simp add: Cons.IH map_of_obj_set)
qed

lemma build_distinct:
  "distinct ks \<Longrightarrow> set ks \<inter> fst ` set init = {} \<Longrightarrow>
   foldl (\<lambda>result key. obj_set result key (f key)) init ks = init @ map (\<lambda>key. (key, f key)) ks"
proof (induction ks arbitrary: init)
  case Nil
  show ?case by simp
next
  case (Cons x xs)
  have x: "x \<notin> fst ` set init" using Cons.prems by auto
  have "set xs \<inter> fst ` set (init @ [(x, f x)]) = {}" using Cons.prems by auto
  then show ?case using Cons.prems x by (simp add: Cons.IH obj_set_fresh)
qed

lemma build_keys_set:
  "set (obj_keys (foldl (\<lambda>result key. obj_set result key (f key)) init ks)) =
     set (obj_keys init) \<union> set ks"
proof (induction ks arbitrary: init)
  case Nil
  show ?case by simp
next
  case (Cons x xs)
  have "set (obj_keys (obj_set init x (f x))) = insert x (set (obj_keys init))"
    using dom_update[of x "f x" init] by (simp add: obj_keys_def obj_set_def)
  then show ?case by (simp add: Cons.IH)
qed

lemma obj_get_addState:
  "obj_get (addState a b) k =
     (if k \<in> set (obj_keys a) then js_add (obj_get a k) (obj_get b k) else Undefined)"
  by (simp add: addState_def obj_get_def build_map_of)

lemma obj_get_scaleState:
  "obj_get (scaleState a c) k =
     (if k \<in> set (obj_keys a) then js_mul (obj_get a k) (Num c) else Undefined)"
  by (simp add: scaleState_def obj_get_def build_map_of)

lemma obj_get_map:
  "obj_get (map (\<lambda>key. (key, f key)) ks) k = (if k \<in> set ks then f k else Undefined)"
  by (simp add: obj_get_def map_of_map_restrict restrict_map_def)

lemma obj_get_vtimes: "obj_get (vtimes c a) k = obj_get (scaleState a c) k"
  by (simp add: vtimes_def obj_get_map obj_get_scaleState js_mul_commute)

lemma addState_distinct:
  "distinct (obj_keys a) \<Longrightarrow>
   addState a b = map (\<lambda>key. (key, js_add (obj_get a key) (obj_get b key))) (obj_keys a)"
  using build_distinct[of "obj_keys a" "[]"] by (simp add: addState_def)

lemma keys_addState_set: "set (obj_keys (addState a b)) = set (obj_keys a)"
  using build_keys_set[of _ "[]" "obj_keys a"] by (simp add: addState_def obj_keys_def)

lemma keys_addState: "distinct (obj_keys a) \<Longrightarrow> obj_keys (addState a b) = obj_keys a"
  by (simp add: addState_distinct) (simp add: obj_keys_def comp_def)

lemma addState_cong:
  assumes "distinct (obj_keys a)"
    and "\<And>k. k \<in> set (obj_keys a) \<Longrightarrow> obj_get b k = obj_get b' k"
  shows "addState a b = vplus a b'"
  using assms by (simp add: addState_distinct vplus_def)

lemma obj_get_vplus:
  "obj_get (vplus a b) k =
     (if k \<in> set (obj_keys a) then js_add (obj_get a k) (obj_get b k) else Undefined)"
  by (simp add: vplus_def obj_get_map)

section \<open>The classical Runge-Kutta update\<close>

lemma stage_eq:
  "distinct (obj_keys s) \<Longrightarrow> addState s (scaleState k c) = vplus s (vtimes c k)"
  by (rule addState_cong) (simp_all add: obj_get_vtimes)

lemma vplus_cong: "(\<And>k. obj_get b k = obj_get b' k) \<Longrightarrow> vplus a b = vplus a b'"
  by (simp add: vplus_def)

lemma combined_get:
  "obj_get (vtimes c (addState (addState k1 (scaleState k2 (Fin 2)))
       (addState (scaleState k3 (Fin 2)) k4))) k =
   obj_get (vtimes c (vplus (vplus k1 (vtimes (Fin 2) k2)) (vplus (vtimes (Fin 2) k3) k4))) k"
proof -
  have keys: "set (obj_keys (vplus a b)) = set (obj_keys a)" for a b
    by (simp add: vplus_def obj_keys_def comp_def)
  have keys': "set (obj_keys (vtimes d a)) = set (obj_keys a)" for d a
    by (simp add: vtimes_def obj_keys_def comp_def)
  have keys'': "set (obj_keys (scaleState a d)) = set (obj_keys a)" for d a
    using build_keys_set[of _ "[]" "obj_keys a"] by (simp add: scaleState_def obj_keys_def)
  show ?thesis
    by (simp add: obj_get_vtimes obj_get_scaleState obj_get_addState obj_get_vplus
        keys_addState_set keys keys' keys'')
qed

text \<open>
  C1. For every state (a well-formed object: a finite mapping of field names to
  values), parameter mapping,
  time, step size and derivative function, \<open>rk4Step\<close> returns the classical four-stage
  Runge-Kutta update as the specification writes it: \<open>k1\<close> to \<open>k4\<close> are the derivative
  at the four stage states and times, and the result is
  \<open>state + (dt/6) (k1 + 2 k2 + 2 k3 + k4)\<close>, elementwise over the named fields.
\<close>

theorem rk4Step_classical:
  assumes "well_formed stateObj"
  shows "rk4Step stateObj params t dt derivativeFn = rk4_spec stateObj params t dt derivativeFn"
proof -
  have d: "distinct (obj_keys stateObj)" using assms by (simp add: well_formed_def)
  have st: "addState stateObj (scaleState k c) = vplus stateObj (vtimes c k)" for k c
    by (rule stage_eq[OF d])
  show ?thesis
    unfolding rk4Step_def rk4_spec_def Let_def st
    by (rule vplus_cong) (rule combined_get)
qed

theorem rk4Step_classical_witness:
  "well_formed [(''x'', Num (Fin 1)), (''v'', Num (Fin 0))] \<and>
   rk4Step [(''x'', Num (Fin 1)), (''v'', Num (Fin 0))] [] (Fin 0) (Fin 1)
     (\<lambda>st params t. [(''x'', obj_get st ''v''), (''v'', js_neg (obj_get st ''x''))]) =
   rk4_spec [(''x'', Num (Fin 1)), (''v'', Num (Fin 0))] [] (Fin 0) (Fin 1)
     (\<lambda>st params t. [(''x'', obj_get st ''v''), (''v'', js_neg (obj_get st ''x''))])"
proof -
  have w: "well_formed [(''x'', Num (Fin 1)), (''v'', Num (Fin 0))]"
    by (simp add: well_formed_def obj_keys_def field_name_def prototype_names_def)
  show ?thesis using w rk4Step_classical[OF w] by simp
qed

section \<open>The history buffer\<close>

lemma push_history_length: "length hist \<le> 800 \<Longrightarrow> length (push_history hist x) \<le> 800"
  by (simp add: push_history_def Let_def)

lemma push_history_drop:
  "length hist \<le> 800 \<Longrightarrow>
   foldl push_history hist xs = drop (length (hist @ xs) - 800) (hist @ xs)"
proof (induction xs arbitrary: hist)
  case Nil
  then show ?case by simp
next
  case (Cons x xs)
  show ?case
  proof (cases "length hist < 800")
    case True
    then have p: "push_history hist x = hist @ [x]" by (simp add: push_history_def Let_def)
    have "length (hist @ [x]) \<le> 800" using True by simp
    from Cons.IH[OF this] show ?thesis by (simp add: p)
  next
    case False
    then have len: "length hist = 800" using Cons.prems by simp
    then have p: "push_history hist x = tl (hist @ [x])" by (simp add: push_history_def Let_def)
    have tl: "tl (hist @ [x]) @ xs = drop 1 (hist @ x # xs)"
      using len by (cases hist) auto
    have "length (tl (hist @ [x])) \<le> 800" using len by simp
    from Cons.IH[OF this] show ?thesis using len by (simp add: p tl)
  qed
qed

lemma history_handle_event:
  "length (history s) \<le> 800 \<Longrightarrow> length (history (handle_event h e s)) \<le> 800"
  by (cases e)
    (auto simp: run_click_def pause_click_def resetSimulation_def model_change_def
      drawPlot_def updateMetric_def param_input_def frame_def tick_def Let_def
      push_history_length split: option.splits)

lemma history_foldl_events:
  "length (history s) \<le> 800 \<Longrightarrow>
   length (history (foldl (\<lambda>s (h, e). handle_event h e s) s evs)) \<le> 800"
  by (induction evs arbitrary: s) (auto simp: history_handle_event)

lemma history_initial: "history (initial_session math_sin h) = []"
  by (simp add: initial_session_def resetSimulation_def drawPlot_def updateMetric_def)

text \<open>
  C5. Whatever happens to the session after the module is loaded (any sequence of clicks,
  edits and frames, so after any number of ticks), the history holds at most 800 samples;
  and a tick pushes with \<open>push_history\<close>, under which any sequence of pushes on the
  empty buffer leaves exactly its last 800 samples, in push order (all of them when there
  are fewer).
\<close>

theorem history_bound:
  "length (history (run_events math_sin h0 evs)) \<le> 800 \<and>
   foldl push_history [] xs = drop (length xs - 800) xs \<and>
   length (foldl push_history [] xs) = min 800 (length xs)"
proof -
  have "length (history (run_events math_sin h0 evs)) \<le> 800"
    unfolding run_events_def by (rule history_foldl_events) (simp add: history_initial)
  moreover have "foldl push_history [] xs = drop (length xs - 800) xs"
    using push_history_drop[of "[]" xs] by simp
  ultimately show ?thesis by auto
qed

section \<open>Reset\<close>






section \<open>Parameter edits\<close>

lemma find_set_value:
  "find (\<lambda>item. p_key item = k) (set_value k v ps) =
   map_option (\<lambda>p. p\<lparr>p_value := v\<rparr>) (find (\<lambda>item. p_key item = k) ps)"
  by (induction ps) auto

lemma find_None_keys: "(find (\<lambda>item. p_key item = k) ps = None) = (k \<notin> p_key ` set ps)"
  by (induction ps) auto

text \<open>
  C4, as the code has it. An edit whose key is not a declared parameter of the active
  variant is rejected with an error (the TypeError of writing to \<^verbatim>\<open>undefined\<close>);
  otherwise the value stored for the key is exactly the number given: it is not clamped.
\<close>

theorem param_input_stores:
  "map_sum id
     (\<lambda>s'. map_option p_value
        (find (\<lambda>item. p_key item = k) (parameters (models s' (currentModel s')))))
     (param_input k v s) =
   (if k \<in> p_key ` set (parameters (models s (currentModel s))) then Inr (Some v)
    else Inl TypeError)"
proof (cases "find (\<lambda>item. p_key item = k) (parameters (models s (currentModel s)))")
  case None
  then have "k \<notin> p_key ` set (parameters (models s (currentModel s)))"
    using find_None_keys[of k "parameters (models s (currentModel s))"] by blast
  then show ?thesis using None by (simp add: param_input_def)
next
  case (Some p)
  then have "k \<in> p_key ` set (parameters (models s (currentModel s)))"
    using find_None_keys[of k "parameters (models s (currentModel s))"] by auto
  then show ?thesis using Some
    by (simp add: param_input_def Let_def updateMetric_def find_set_value)
qed

text \<open>
  The claim C4 as stated fails: typing 100 into the mass field of the oscillator, whose
  declared maximum is 5, stores 100.
\<close>

theorem param_input_unclamped:
  "map_sum id (\<lambda>s'. map (\<lambda>p. (p_key p, p_value p, p_max p)) (parameters (models s' Spring)))
     (param_input ''mass'' (Fin 100) (initial_session sin_standin page)) =
   Inr [(''mass'', Fin 100, Fin 5), (''stiffness'', Fin 12, Fin 40),
        (''damping'', js_lit (6 / 10), Fin 3), (''force'', js_lit (18 / 10), Fin 6)] \<and>
   \<not> nge (Fin 5) (Fin 100)"
  by (simp add: param_input_def initial_session_def resetSimulation_def drawPlot_def
      updateMetric_def spring_def Let_def)

section \<open>Deltas whose fields differ from the state's\<close>

lemma nadd_NaN [simp]: "nadd a NaN = NaN"
  by (cases a) simp_all

lemma keys_scaleState_set: "set (obj_keys (scaleState a c)) = set (obj_keys a)"
  using build_keys_set[of _ "[]" "obj_keys a"] by (simp add: scaleState_def obj_keys_def)

lemma keys_rk4Step_set: "set (obj_keys (rk4Step s p t dt f)) = set (obj_keys s)"
  by (simp add: rk4Step_def Let_def keys_addState_set)

lemma keys_rk4Step: "distinct (obj_keys s) \<Longrightarrow> obj_keys (rk4Step s p t dt f) = obj_keys s"
  by (simp add: rk4Step_def Let_def keys_addState)

lemma rk4Step_missing:
  assumes "k \<in> set (obj_keys s)" and "k \<notin> set (obj_keys (f s p t))"
  shows "obj_get (rk4Step s p t dt f) k = Num NaN"
  using assms
  by (simp add: rk4Step_def Let_def obj_get_addState obj_get_scaleState keys_addState_set
      js_add_def js_mul_def)

text \<open>
  C3, as the code has it. \<open>rk4Step\<close> has no error case. For every well-formed state
  (no field twice, every key a field name), whatever own fields the deltas have, it
  returns an object with exactly the field names of the state, in the state's order. A
  field of the state that is not an own field of the delta at the state comes out as
  \<open>NaN\<close>, and a field that only a delta has is dropped.
\<close>

theorem rk4Step_mismatch:
  assumes "well_formed s"
  shows "obj_keys (rk4Step s p t dt f) = obj_keys s \<and>
    (\<forall>k \<in> set (obj_keys s). k \<notin> set (obj_keys (f s p t)) \<longrightarrow>
       obj_get (rk4Step s p t dt f) k = Num NaN)"
  using assms by (simp add: well_formed_def keys_rk4Step rk4Step_missing)

text \<open>
  The claim C3 as stated fails: with the state \<^verbatim>\<open>{x: 1}\<close>, a derivative returning
  \<^verbatim>\<open>{x: 0, y: 5}\<close> (an extra field) yields \<^verbatim>\<open>{x: 1}\<close>, and a derivative returning
  \<^verbatim>\<open>{}\<close> (a missing field) yields \<^verbatim>\<open>{x: NaN}\<close>; neither call fails.
\<close>

theorem rk4Step_mismatch_silent:
  "rk4Step [(''x'', Num (Fin 1))] [] (Fin 0) (Fin 1)
     (\<lambda>st params t. [(''x'', Num (Fin 0)), (''y'', Num (Fin 5))]) = [(''x'', Num (Fin 1))] \<and>
   rk4Step [(''x'', Num (Fin 1))] [] (Fin 0) (Fin 1) (\<lambda>st params t. []) = [(''x'', Num NaN)]"
  by (simp add: rk4Step_def Let_def addState_def scaleState_def obj_keys_def obj_get_def
      obj_set_def js_add_def js_mul_def eval64)

theorem rk4Step_mismatch_witness:
  "well_formed [(''x'', Num (Fin 1))] \<and>
   obj_keys (rk4Step [(''x'', Num (Fin 1))] [] (Fin 0) (Fin 1) (\<lambda>st params t. [])) = [''x''] \<and>
   ''x'' \<in> set (obj_keys [(''x'', Num (Fin 1))]) \<and>
   ''x'' \<notin> set (obj_keys ((\<lambda>st params t. []) [(''x'', Num (Fin 1))] [] (Fin 0))) \<and>
   obj_get (rk4Step [(''x'', Num (Fin 1))] [] (Fin 0) (Fin 1) (\<lambda>st params t. [])) ''x'' = Num NaN"
  using rk4Step_mismatch[of "[(''x'', Num (Fin 1))]" "[]" "Fin 0" "Fin 1" "\<lambda>st params t. []"]
  by (simp add: well_formed_def obj_keys_def field_name_def prototype_names_def)

section \<open>The fixed point of a zero derivative\<close>

lemma js_add_zero: "numeric v \<Longrightarrow> js_add v (Num (Fin 0)) = v"
  by (cases v rule: numeric.cases) (simp_all add: js_add_def is_double_def)

lemma obj_get_keys: "obj_get a k = Num x \<Longrightarrow> k \<in> set (obj_keys a)"
proof -
  assume "obj_get a k = Num x"
  then obtain v where "map_of a k = Some v"
    by (auto simp: obj_get_def split: option.splits)
  then have "(k, v) \<in> set a" by (rule map_of_SomeD)
  then show ?thesis by (force simp: obj_keys_def)
qed

lemma obj_get_member: "distinct (obj_keys a) \<Longrightarrow> (k, v) \<in> set a \<Longrightarrow> obj_get a k = v"
  by (simp add: obj_get_def obj_keys_def)

lemma obj_rebuild: "distinct (obj_keys a) \<Longrightarrow> map (\<lambda>k. (k, obj_get a k)) (obj_keys a) = a"
proof -
  assume d: "distinct (obj_keys a)"
  have "map (\<lambda>k. (k, obj_get a k)) (obj_keys a) = map (\<lambda>kv. (fst kv, obj_get a (fst kv))) a"
    by (simp add: obj_keys_def comp_def)
  also have "\<dots> = map (\<lambda>kv. kv) a"
    by (rule map_cong) (auto simp: obj_get_member[OF d])
  finally show ?thesis by simp
qed

lemma combined_zero:
  assumes "obj_get k1 k = Num (Fin 0)" "obj_get k2 k = Num (Fin 0)"
    "obj_get k3 k = Num (Fin 0)" "obj_get k4 k = Num (Fin 0)"
  shows "obj_get (scaleState (addState (addState k1 (scaleState k2 (Fin 2)))
           (addState (scaleState k3 (Fin 2)) k4)) (Fin c)) k = Num (Fin 0)"
proof -
  have "k \<in> set (obj_keys k1)" "k \<in> set (obj_keys k2)" "k \<in> set (obj_keys k3)"
    using assms obj_get_keys by blast+
  then show ?thesis
    using assms
    by (simp add: obj_get_scaleState obj_get_addState keys_addState_set keys_scaleState_set
        js_mul_def js_add_def)
qed

lemma addState_zero:
  assumes d: "distinct (obj_keys s)"
    and n: "list_all (\<lambda>kv. numeric (snd kv)) s"
    and z: "\<And>k. k \<in> set (obj_keys s) \<Longrightarrow> obj_get b k = Num (Fin 0)"
  shows "addState s b = s"
proof -
  have num: "numeric (obj_get s k)" if "k \<in> set (obj_keys s)" for k
  proof -
    from that obtain v where "(k, v) \<in> set s" by (auto simp: obj_keys_def)
    then show ?thesis using n obj_get_member[OF d] by (auto simp: list_all_iff)
  qed
  have "addState s b = map (\<lambda>k. (k, obj_get s k)) (obj_keys s)"
    unfolding addState_distinct[OF d]
    by (rule map_cong) (simp_all add: z js_add_zero num)
  then show ?thesis by (simp add: obj_rebuild[OF d])
qed

lemma rk4Step_zero:
  assumes d: "distinct (obj_keys s)"
    and n: "list_all (\<lambda>kv. numeric (snd kv)) s"
    and dt: "is_double dt"
    and z: "\<And>s' t' k. k \<in> set (obj_keys s) \<Longrightarrow> obj_get (f s' p t') k = Num (Fin 0)"
  shows "rk4Step s p t (Fin dt) f = s"
proof -
  obtain c where c: "ndiv (Fin dt) (Fin 6) = Fin c"
    using ndiv_double_finite[OF dt, of 6] by auto
  show ?thesis
    unfolding rk4Step_def Let_def c
    by (rule addState_zero[OF d n]) (rule combined_zero; rule z; assumption)
qed

text \<open>
  C9, as the code has it. For every well-formed state whose fields hold numbers,
  parameter mapping and time, and every finite step size, if the derivative function
  returns zero for every field of the state, whatever it is applied to, then one step
  returns the state unchanged, and so does any sequence of steps, at whatever times they
  are taken.
\<close>

theorem rk4Step_fixed_point:
  assumes "well_formed s"
    and "list_all (\<lambda>kv. numeric (snd kv)) s"
    and "is_double dt"
    and "\<forall>s' t'. \<forall>k \<in> set (obj_keys s). obj_get (f s' p t') k = Num (Fin 0)"
  shows "rk4Step s p t (Fin dt) f = s \<and> foldl (\<lambda>s' t'. rk4Step s' p t' (Fin dt) f) s ts = s"
proof -
  have one: "rk4Step s p t' (Fin dt) f = s" for t'
    using assms by (intro rk4Step_zero) (auto simp: well_formed_def)
  have "foldl (\<lambda>s' t'. rk4Step s' p t' (Fin dt) f) s ts = s"
    by (induction ts) (simp_all add: one)
  then show ?thesis using one by simp
qed

theorem rk4Step_fixed_point_witness:
  "well_formed [(''x'', Num (Fin 1)), (''v'', Num PInf)] \<and>
   list_all (\<lambda>kv. numeric (snd kv)) [(''x'', Num (Fin 1)), (''v'', Num PInf)] \<and>
   is_double (1 / 2) \<and>
   rk4Step [(''x'', Num (Fin 1)), (''v'', Num PInf)] [] (Fin 0) (Fin (1 / 2))
     (\<lambda>st params t. [(''x'', Num (Fin 0)), (''v'', Num (Fin 0))]) =
   [(''x'', Num (Fin 1)), (''v'', Num PInf)]"
  using rk4Step_fixed_point[of "[(''x'', Num (Fin 1)), (''v'', Num PInf)]" "1 / 2"
      "\<lambda>st params t. [(''x'', Num (Fin 0)), (''v'', Num (Fin 0))]" "[]" "Fin 0" "[]"]
  by (simp add: well_formed_def obj_keys_def obj_get_def field_name_def prototype_names_def
      is_double_def eval64)

text \<open>
  The claim C9 as stated fails for a step size that is not finite: with the state
  \<^verbatim>\<open>{x: 1}\<close>, a derivative that always returns \<^verbatim>\<open>{x: 0}\<close> and \<^verbatim>\<open>dt = Infinity\<close>, the
  step computes \<open>0 * Infinity\<close> and returns \<^verbatim>\<open>{x: NaN}\<close>; so it does for \<^verbatim>\<open>dt = NaN\<close>.
\<close>

theorem rk4Step_zero_infinite_dt:
  "rk4Step [(''x'', Num (Fin 1))] [] (Fin 0) PInf (\<lambda>st params t. [(''x'', Num (Fin 0))]) =
     [(''x'', Num NaN)] \<and>
   rk4Step [(''x'', Num (Fin 1))] [] (Fin 0) NaN (\<lambda>st params t. [(''x'', Num (Fin 0))]) =
     [(''x'', Num NaN)]"
  by (simp add: rk4Step_def Let_def addState_def scaleState_def obj_keys_def obj_get_def
      obj_set_def js_add_def js_mul_def eval64)

section \<open>The tick loop\<close>

lemma tick_idle: "\<not> running s \<Longrightarrow> tick h s = s"
  by (simp add: tick_def)

lemma tick_complete:
  "running s \<Longrightarrow> nge (time s) (timeHorizonInput h) \<Longrightarrow>
   tick h s = s\<lparr>running := False, canvasStatus := Complete\<rparr>"
  by (simp add: tick_def)

lemma tick_step:
  assumes "running s" and "\<not> nge (time s) (timeHorizonInput h)"
  shows "running (tick h s)"
    and "pending (tick h s) = pending s + 1"
    and "time (tick h s) = nadd (time s) (stepSizeInput h)"
    and "step (tick h s) = nadd (step s) (Fin 1)"
    and "state (tick h s) =
           rk4Step (state s) (getParams s) (time s) (stepSizeInput h)
             (derivatives (models s (currentModel s)))"
    and "history (tick h s) =
           push_history (history s)
             (sample (time (tick h s)) (series (models s (currentModel s)) (state (tick h s))))"
    and "energyMetric (tick h s) =
           metric (models s (currentModel s)) (state (tick h s)) (getParams s)"
    and "canvasStatus (tick h s) = (if ctx h then canvasStatus s else NoCanvas)"
  using assms
  by (simp_all add: tick_def Let_def drawPlot_def updateMetric_def getParams_def)

lemma frame_step:
  assumes "running s" and "pending s = Suc 0" and "\<not> nge (time s) (timeHorizonInput h)"
  shows "running (frame h s)"
    and "pending (frame h s) = Suc 0"
    and "time (frame h s) = nadd (time s) (stepSizeInput h)"
    and "step (frame h s) = nadd (step s) (Fin 1)"
    and "history (frame h s) =
           push_history (history s)
             (sample (time (frame h s)) (series (models s (currentModel s)) (state (frame h s))))"
  using assms tick_step[of "s\<lparr>pending := 0\<rparr>" h]
  by (simp_all add: frame_def)

lemma run_frames_pending: "pending s \<noteq> 0 \<Longrightarrow> run_frames h s = run_frames h (frame h s)"
  by (subst run_frames.simps) simp

lemma run_frames_done: "pending s = 0 \<Longrightarrow> run_frames h s = Some s"
  by (subst run_frames.simps) simp

lemma run_frames_finish:
  assumes "running s" and "pending s = Suc 0" and "nge (time s) (timeHorizonInput h)"
  shows "run_frames h s = Some (s\<lparr>pending := 0, running := False, canvasStatus := Complete\<rparr>)"
proof -
  have "frame h s = s\<lparr>pending := 0, running := False, canvasStatus := Complete\<rparr>"
    using assms by (simp add: frame_def tick_complete)
  then show ?thesis using assms run_frames_pending[of s h] by (simp add: run_frames_done)
qed

lemma run_frames_ticks:
  assumes "ticks n (stepSizeInput h) (timeHorizonInput h) (time s, step s) = Some (t, k)"
    and "running s" and "pending s = Suc 0" and "length (history s) \<le> 800"
  shows "\<exists>s'. run_frames h s = run_frames h s' \<and> running s' \<and> pending s' = Suc 0 \<and>
           time s' = t \<and> step s' = k \<and> length (history s') = min 800 (length (history s) + n)"
  using assms
proof (induction n arbitrary: s)
  case 0
  then show ?case by auto
next
  case (Suc n)
  from Suc.prems(1) have below: "\<not> nge (time s) (timeHorizonInput h)"
    by (auto split: if_splits)
  note fs = frame_step[OF Suc.prems(2,3) below]
  have len: "length (history (frame h s)) = min 800 (length (history s) + 1)"
    using Suc.prems(4) by (simp add: fs(5) push_history_def Let_def)
  have "ticks n (stepSizeInput h) (timeHorizonInput h) (time (frame h s), step (frame h s)) =
          Some (t, k)"
    using Suc.prems(1) below by (simp add: fs)
  from Suc.IH[OF this fs(1) fs(2)] len
  obtain s' where s': "run_frames h (frame h s) = run_frames h s'" "running s'"
      "pending s' = Suc 0" "time s' = t" "step s' = k"
      "length (history s') = min 800 (length (history (frame h s)) + n)"
    by auto
  have "run_frames h s = run_frames h s'"
    using run_frames_pending[of s h] Suc.prems(3) s'(1) by simp
  then show ?case using s' len by auto
qed

lemma clock_101:
  "ticks 101 (js_lit (5 / 100)) (Fin 5) (Fin 0, Fin 0) =
     Some (Fin (710724316194405 / 140737488355328), Fin 101)"
  by (simp add: eval_nat_numeral js_lit_def eval64)

lemma oscillator_run:
  "map_option (\<lambda>s. (step s, time s, length (history s), running s))
     (run_frames page (run_click (initial_session math_sin page))) =
   Some (Fin 101, Fin (710724316194405 / 140737488355328), 101, False)"
proof -
  let ?s = "run_click (initial_session math_sin page)"
  have s: "running ?s" "pending ?s = Suc 0" "time ?s = Fin 0" "step ?s = Fin 0" "history ?s = []"
    by (simp_all add: run_click_def initial_session_def resetSimulation_def drawPlot_def
        updateMetric_def)
  have "ticks 101 (stepSizeInput page) (timeHorizonInput page) (time ?s, step ?s) =
          Some (Fin (710724316194405 / 140737488355328), Fin 101)"
    using clock_101 unfolding s(3,4) by (simp add: page_def)
  from run_frames_ticks[OF this s(1,2)]
  obtain s' where s': "run_frames page ?s = run_frames page s'" "running s'" "pending s' = Suc 0"
      "time s' = Fin (710724316194405 / 140737488355328)" "step s' = Fin 101"
      "length (history s') = 101"
    by (auto simp: s)
  have "nge (time s') (timeHorizonInput page)" by (simp add: s' page_def)
  from run_frames_finish[OF s'(2,3) this] show ?thesis by (simp add: s')
qed

lemma spin_frame:
  assumes "running s" and "pending s \<noteq> 0" and "stepSizeInput h = Fin 0"
    and "time s = Fin x" and "is_double x" and "\<not> nge (time s) (timeHorizonInput h)"
  shows "running (frame h s) \<and> pending (frame h s) \<noteq> 0 \<and> time (frame h s) = Fin x"
  using assms tick_step[of "s\<lparr>pending := pending s - 1\<rparr>" h]
  by (simp add: frame_def is_double_def)

lemma zero_dt_spin:
  assumes "running s" and "pending s \<noteq> 0" and "stepSizeInput h = Fin 0"
    and "time s = Fin x" and "is_double x" and "\<not> nge (Fin x) (timeHorizonInput h)"
  shows "run_frames h s = None"
proof (cases "run_frames h s")
  case None
  then show ?thesis .
next
  case (Some y)
  have "\<not> (running s \<and> pending s \<noteq> 0 \<and> stepSizeInput h = Fin 0 \<and> time s = Fin x \<and>
      \<not> nge (Fin x) (timeHorizonInput h))"
  proof (rule run_frames.raw_induct[where P = "\<lambda>h s y. \<not> (running s \<and> pending s \<noteq> 0 \<and>
      stepSizeInput h = Fin 0 \<and> time s = Fin x \<and> \<not> nge (Fin x) (timeHorizonInput h))",
      OF _ Some])
    fix f h' s' y'
    assume IH: "\<And>h s y. f h s = Some y \<Longrightarrow>
        \<not> (running s \<and> pending s \<noteq> 0 \<and> stepSizeInput h = Fin 0 \<and> time s = Fin x \<and>
          \<not> nge (Fin x) (timeHorizonInput h))"
      and eq: "(if pending s' = 0 then Some s' else f h' (frame h' s')) = Some y'"
    show "\<not> (running s' \<and> pending s' \<noteq> 0 \<and> stepSizeInput h' = Fin 0 \<and> time s' = Fin x \<and>
        \<not> nge (Fin x) (timeHorizonInput h'))"
    proof
      assume a: "running s' \<and> pending s' \<noteq> 0 \<and> stepSizeInput h' = Fin 0 \<and> time s' = Fin x \<and>
        \<not> nge (Fin x) (timeHorizonInput h')"
      then have "f h' (frame h' s') = Some y'" using eq by simp
      then have "\<not> (running (frame h' s') \<and> pending (frame h' s') \<noteq> 0 \<and>
          stepSizeInput h' = Fin 0 \<and> time (frame h' s') = Fin x \<and>
          \<not> nge (Fin x) (timeHorizonInput h'))"
        by (rule IH)
      then show False using a spin_frame[of s' h' x] \<open>is_double x\<close> by simp
    qed
  qed
  then show ?thesis using assms by simp
qed


text \<open>
  C2, as the code has it. The only guard of a tick is \<^verbatim>\<open>time >= horizon\<close>. Starting a
  run on an idle session whose time has reached the horizon (so with a horizon of 0 or
  less on a fresh or reset session, whatever the step size) executes no integration step:
  the first tick completes the run, and nothing but the status message changes.
\<close>

theorem run_at_horizon:
  assumes "\<not> running s" and "pending s = 0" and "nge (time s) (timeHorizonInput h)"
  shows "run_frames h (run_click s) = Some (s\<lparr>canvasStatus := Complete\<rparr>)"
proof -
  let ?r = "run_click s"
  have r: "running ?r" "pending ?r = Suc 0" "nge (time ?r) (timeHorizonInput h)"
    using assms by (simp_all add: run_click_def)
  have "?r\<lparr>pending := 0, running := False, canvasStatus := Complete\<rparr> =
      s\<lparr>canvasStatus := Complete\<rparr>"
    using assms by (cases s) (simp add: run_click_def)
  then show ?thesis using run_frames_finish[OF r] by simp
qed

theorem run_at_horizon_witness:
  "\<not> running (initial_session sin_standin past_horizon) \<and>
   pending (initial_session sin_standin past_horizon) = 0 \<and>
   nge (time (initial_session sin_standin past_horizon)) (timeHorizonInput past_horizon) \<and>
   run_frames past_horizon (run_click (initial_session sin_standin past_horizon)) =
     Some ((initial_session sin_standin past_horizon)\<lparr>canvasStatus := Complete\<rparr>)"
proof -
  have h: "\<not> running (initial_session sin_standin past_horizon)"
    "pending (initial_session sin_standin past_horizon) = 0"
    "nge (time (initial_session sin_standin past_horizon)) (timeHorizonInput past_horizon)"
    by (simp_all add: initial_session_def resetSimulation_def drawPlot_def updateMetric_def
        past_horizon_def page_def)
  show ?thesis using h run_at_horizon[OF h] by simp
qed

text \<open>
  The claim C2 as stated fails for a step size of 0 with a horizon of 5: the first tick
  executes a step and leaves the session running, and the frames never come to an end.
\<close>

theorem zero_dt_never_completes:
  "step (frame zero_dt (run_click (initial_session sin_standin zero_dt))) = Fin 1 \<and>
   running (frame zero_dt (run_click (initial_session sin_standin zero_dt))) \<and>
   length (history (frame zero_dt (run_click (initial_session sin_standin zero_dt)))) = 1 \<and>
   run_frames zero_dt (run_click (initial_session sin_standin zero_dt)) = None"
proof -
  let ?s = "run_click (initial_session sin_standin zero_dt)"
  have s: "running ?s" "pending ?s = Suc 0" "time ?s = Fin 0" "step ?s = Fin 0" "history ?s = []"
    by (simp_all add: run_click_def initial_session_def resetSimulation_def drawPlot_def
        updateMetric_def)
  have below: "\<not> nge (time ?s) (timeHorizonInput zero_dt)"
    unfolding s by (simp add: zero_dt_def page_def)
  note fs = frame_step[OF s(1,2) below]
  have "step (frame zero_dt ?s) = Fin 1" unfolding fs s by (simp add: eval64)
  moreover have "length (history (frame zero_dt ?s)) = 1"
    unfolding fs(5) s by (simp add: push_history_def)
  moreover have "run_frames zero_dt ?s = None"
  proof (rule zero_dt_spin[where x = 0])
    show "running ?s" by (rule s(1))
    show "pending ?s \<noteq> 0" using s(2) by simp
    show "stepSizeInput zero_dt = Fin 0" by (simp add: zero_dt_def)
    show "time ?s = Fin 0" by (rule s(3))
    show "is_double 0" by (simp add: is_double_def)
    show "\<not> nge (Fin 0) (timeHorizonInput zero_dt)" by (simp add: zero_dt_def page_def)
  qed
  ultimately show ?thesis using fs(1) by simp
qed

text \<open>
  C8, as the code has it. For the oscillator with its declared parameter values
  (mass 1.2, k 12, c 0.6, F 1.8), a step size of 0.05 and a horizon of 5, running from
  the initial session to completion takes 101 steps, not 100: after 100 additions of the
  binary64 value of 0.05 the time is 4.99999999999999 and still below 5. The run ends
  with step 101, time 5.04999999999999 and 101 samples, whatever the host's sine.
\<close>

theorem oscillator_scenario:
  "getParams (initial_session math_sin page) =
     [(''mass'', Num (js_lit (12 / 10))), (''stiffness'', Num (Fin 12)),
      (''damping'', Num (js_lit (6 / 10))), (''force'', Num (js_lit (18 / 10)))] \<and>
   map_option (\<lambda>s. (step s, time s, length (history s), running s))
     (run_frames page (run_click (initial_session math_sin page))) =
   Some (Fin 101, Fin (710724316194405 / 140737488355328), 101, False)"
  using oscillator_run[of math_sin]
  by (simp add: getParams_def initial_session_def resetSimulation_def drawPlot_def
      updateMetric_def spring_def obj_set_def)

text \<open>The claim C8 as stated fails: the run takes 101 steps.\<close>

theorem oscillator_101_steps:
  "map_option (\<lambda>s. (step s, time s, length (history s), running s))
     (run_frames page (run_click (initial_session sin_standin page))) =
   Some (Fin 101, Fin (710724316194405 / 140737488355328), 101, False)"
  by (rule oscillator_run)

text \<open>
  C6, as the code has it. A tick looks at no value for finiteness. In every session the
  program can be in, when the session is running and its time is below the horizon, the
  tick stores the new state, appends its sample to the history and shows its metric,
  whatever these values are, and the session stays running with its status message; a run
  completes only by reaching the horizon.
\<close>

theorem tick_unchecked:
  assumes "s = run_events math_sin h0 evs"
    and "running s" and "\<not> nge (time s) (timeHorizonInput h)"
  shows "state (tick h s) =
           rk4Step (state s) (getParams s) (time s) (stepSizeInput h)
             (derivatives (models s (currentModel s))) \<and>
         history (tick h s) =
           push_history (history s)
             (sample (nadd (time s) (stepSizeInput h))
                (series (models s (currentModel s)) (state (tick h s)))) \<and>
         energyMetric (tick h s) =
           metric (models s (currentModel s)) (state (tick h s)) (getParams s) \<and>
         running (tick h s) \<and>
         canvasStatus (tick h s) = (if ctx h then canvasStatus s else NoCanvas)"
  using tick_step[OF assms(2,3)] by simp

theorem tick_unchecked_witness:
  "running (run_events sin_standin page [(page, RunClick)]) \<and>
   \<not> nge (time (run_events sin_standin page [(page, RunClick)])) (timeHorizonInput page) \<and>
   running (tick page (run_events sin_standin page [(page, RunClick)])) \<and>
   canvasStatus (tick page (run_events sin_standin page [(page, RunClick)])) = Running \<and>
   length (history (tick page (run_events sin_standin page [(page, RunClick)]))) = 1"
proof -
  have h: "running (run_events sin_standin page [(page, RunClick)])"
    "\<not> nge (time (run_events sin_standin page [(page, RunClick)])) (timeHorizonInput page)"
    "history (run_events sin_standin page [(page, RunClick)]) = []"
    "canvasStatus (run_events sin_standin page [(page, RunClick)]) = Running"
    "ctx page"
    by (simp_all add: run_events_def run_click_def initial_session_def resetSimulation_def
        drawPlot_def updateMetric_def page_def)
  show ?thesis using h tick_unchecked[OF refl h(1,2)] by (simp add: push_history_def)
qed

lemmas obj_eval = obj_keys_def obj_get_def obj_set_def addState_def scaleState_def
  js_add_def js_sub_def js_mul_def js_div_def js_neg_def nsub_def

lemma nmul_NaN [simp]: "nmul a NaN = NaN"
  by (cases a) simp_all

lemma unstable_k1:
  "spring_derivatives sin_standin [(''x'', Num (Fin 1)), (''v'', Num (Fin 0))] unstable_params
     (Fin 0) =
   [(''x'', Num (Fin 0)), (''v'', Num NInf)]"
  by (simp add: spring_derivatives_def unstable_params_def Let_def obj_eval js_lit_def eval64)

lemma unstable_s1:
  "addState [(''x'', Num (Fin 1)), (''v'', Num (Fin 0))]
     (scaleState [(''x'', Num (Fin 0)), (''v'', Num NInf)] (ndiv (js_lit (5 / 100)) (Fin 2))) =
   [(''x'', Num (Fin 1)), (''v'', Num NInf)]"
  by (simp add: obj_eval js_lit_def eval64)

lemma unstable_k2:
  "spring_derivatives sin_standin [(''x'', Num (Fin 1)), (''v'', Num NInf)] unstable_params
     (nadd (Fin 0) (ndiv (js_lit (5 / 100)) (Fin 2))) =
   [(''x'', Num NInf), (''v'', Num PInf)]"
  by (simp add: spring_derivatives_def unstable_params_def Let_def obj_eval js_lit_def eval64)

lemma unstable_s2:
  "addState [(''x'', Num (Fin 1)), (''v'', Num (Fin 0))]
     (scaleState [(''x'', Num NInf), (''v'', Num PInf)] (ndiv (js_lit (5 / 100)) (Fin 2))) =
   [(''x'', Num NInf), (''v'', Num PInf)]"
  by (simp add: obj_eval js_lit_def eval64)

lemma unstable_k3:
  "spring_derivatives sin_standin [(''x'', Num NInf), (''v'', Num PInf)] unstable_params
     (nadd (Fin 0) (ndiv (js_lit (5 / 100)) (Fin 2))) =
   [(''x'', Num PInf), (''v'', Num NaN)]"
  by (simp add: spring_derivatives_def unstable_params_def Let_def obj_eval js_lit_def eval64)

lemma unstable_s3:
  "addState [(''x'', Num (Fin 1)), (''v'', Num (Fin 0))]
     (scaleState [(''x'', Num PInf), (''v'', Num NaN)] (js_lit (5 / 100))) =
   [(''x'', Num PInf), (''v'', Num NaN)]"
  by (simp add: obj_eval js_lit_def eval64)

lemma unstable_k4:
  "spring_derivatives sin_standin [(''x'', Num PInf), (''v'', Num NaN)] unstable_params
     (nadd (Fin 0) (js_lit (5 / 100))) =
   [(''x'', Num NaN), (''v'', Num NaN)]"
  by (simp add: spring_derivatives_def unstable_params_def Let_def obj_eval js_lit_def eval64)

lemma unstable_sum:
  "addState [(''x'', Num (Fin 1)), (''v'', Num (Fin 0))]
     (scaleState
        (addState
           (addState [(''x'', Num (Fin 0)), (''v'', Num NInf)]
              (scaleState [(''x'', Num NInf), (''v'', Num PInf)] (Fin 2)))
           (addState (scaleState [(''x'', Num PInf), (''v'', Num NaN)] (Fin 2))
              [(''x'', Num NaN), (''v'', Num NaN)]))
        (ndiv (js_lit (5 / 100)) (Fin 6))) =
   [(''x'', Num NaN), (''v'', Num NaN)]"
  by (simp add: obj_eval js_lit_def eval64)

lemma unstable_step:
  "rk4Step [(''x'', Num (Fin 1)), (''v'', Num (Fin 0))] unstable_params (Fin 0)
     (js_lit (5 / 100)) (spring_derivatives sin_standin) =
   [(''x'', Num NaN), (''v'', Num NaN)]"
  unfolding rk4Step_def Let_def unstable_k1 unstable_s1 unstable_k2 unstable_s2 unstable_k3
    unstable_s3 unstable_k4
  by (rule unstable_sum)

lemma before_frame_fields:
  "running before_frame" "pending before_frame = Suc 0" "time before_frame = Fin 0"
  "history before_frame = []" "canvasStatus before_frame = Running"
  "state before_frame = [(''x'', Num (Fin 1)), (''v'', Num (Fin 0))]"
  "getParams before_frame = unstable_params"
  "derivatives (models before_frame (currentModel before_frame)) = spring_derivatives sin_standin"
  "metric (models before_frame (currentModel before_frame)) = spring_metric"
  "series (models before_frame (currentModel before_frame)) =
     (\<lambda>st. [(''primary'', obj_get st ''x''), (''secondary'', obj_get st ''v'')])"
  by (simp_all add: before_frame_def run_events_def initial_session_def resetSimulation_def
      drawPlot_def updateMetric_def param_input_def run_click_def Let_def
      getParams_def spring_def deepCopy_def unstable_params_def obj_set_def page_def)

lemma unstable_run_frame: "unstable_run = tick page (before_frame\<lparr>pending := 0\<rparr>)"
  by (simp add: unstable_run_def before_frame_def run_events_def frame_def
      before_frame_fields(2)[unfolded before_frame_def run_events_def, simplified])

text \<open>
  The claim C6 as stated fails. Set the mass field of the oscillator to 0 (an emptied
  field reads as 0 too) and run one frame with a step size of 0.05: the acceleration is a
  division by the zero mass, the state becomes \<^verbatim>\<open>{x: NaN, v: NaN}\<close>, the sample
  \<^verbatim>\<open>{t: 0.05, primary: NaN, secondary: NaN}\<close> is appended to the history, \<open>NaN\<close> is
  shown as the metric, and the session is still running. The sine enters at time 0 only,
  where it is 0; after that every value it is added to is infinite or \<open>NaN\<close>.
\<close>

theorem nonfinite_sample_appended:
  "state unstable_run = [(''x'', Num NaN), (''v'', Num NaN)] \<and>
   history unstable_run =
     [[(''t'', Num (Fin (3602879701896397 / 72057594037927936))), (''primary'', Num NaN),
       (''secondary'', Num NaN)]] \<and>
   energyMetric unstable_run = NaN \<and>
   running unstable_run \<and>
   canvasStatus unstable_run = Running"
proof -
  let ?b = "before_frame\<lparr>pending := 0\<rparr>"
  have r: "running ?b" by (simp add: before_frame_fields)
  have b: "\<not> nge (time ?b) (timeHorizonInput page)"
    by (simp add: before_frame_fields page_def)
  note ts = tick_step[OF r b]
  have dt: "stepSizeInput page = js_lit (5 / 100)" by (simp add: page_def)
  have gp: "getParams ?b = unstable_params"
    using before_frame_fields(7) by (simp add: getParams_def)
  have sb: "state ?b = [(''x'', Num (Fin 1)), (''v'', Num (Fin 0))]" "time ?b = Fin 0"
    "derivatives (models ?b (currentModel ?b)) = spring_derivatives sin_standin"
    by (simp_all add: before_frame_fields)
  have st: "state (tick page ?b) = [(''x'', Num NaN), (''v'', Num NaN)]"
    unfolding ts(5) gp dt sb by (rule unstable_step)
  have tm: "time (tick page ?b) = Fin (3602879701896397 / 72057594037927936)"
    unfolding ts(3) by (simp add: before_frame_fields page_def js_lit_def eval64)
  have hi: "history (tick page ?b) =
      [[(''t'', Num (Fin (3602879701896397 / 72057594037927936))), (''primary'', Num NaN),
        (''secondary'', Num NaN)]]"
    unfolding ts(6) st tm
    by (simp add: before_frame_fields push_history_def sample_def obj_set_def obj_get_def)
  have me: "energyMetric (tick page ?b) = NaN"
    unfolding ts(7) st gp
    by (simp add: before_frame_fields spring_metric_def unstable_params_def Let_def obj_get_def
        js_mul_def js_add_def)
  have cs: "canvasStatus (tick page ?b) = Running"
    unfolding ts(8) by (simp add: before_frame_fields page_def)
  show ?thesis unfolding unstable_run_frame using st hi me cs ts(1) by simp
qed

section \<open>The result is a new object\<close>

lemma heap_get_append [simp]: "a < length h \<Longrightarrow> heap_get (h @ xs) a = heap_get h a"
  by (simp add: heap_get_def nth_append)

lemma heap_get_new [simp]: "heap_get (h @ [x]) (length h) = x"
  by (simp add: heap_get_def)

lemma heap_build:
  assumes "\<And>x. g (h @ [x]) = g0"
  shows "foldl (\<lambda>hp key. heap_set hp (length h) key (F (g hp) key)) (h @ [acc]) ks =
         h @ [foldl (\<lambda>result key. obj_set result key (F g0 key)) acc ks]"
proof (induction ks arbitrary: acc)
  case Nil
  show ?case by simp
next
  case (Cons k ks)
  have "heap_set (h @ [acc]) (length h) k (F (g (h @ [acc])) k) =
      h @ [obj_set acc k (F g0 k)]"
    by (simp add: heap_set_def assms)
  then show ?case by (simp add: Cons.IH)
qed

lemma addState_h_eq:
  assumes "a < length h" and "b < length h"
  shows "addState_h h a b = (length h, h @ [addState (heap_get h a) (heap_get h b)])"
proof -
  have "foldl (\<lambda>hp key. heap_set hp (length h) key
           ((\<lambda>(x, y) key. js_add (obj_get x key) (obj_get y key))
              ((\<lambda>hp. (heap_get hp a, heap_get hp b)) hp) key))
         (h @ [[]]) (obj_keys (heap_get h a)) =
        h @ [foldl (\<lambda>result key. obj_set result key
           ((\<lambda>(x, y) key. js_add (obj_get x key) (obj_get y key))
              (heap_get h a, heap_get h b) key)) [] (obj_keys (heap_get h a))]"
    by (rule heap_build) (simp add: assms)
  then show ?thesis using assms by (simp add: addState_h_def alloc_def addState_def)
qed

lemma scaleState_h_eq:
  assumes "a < length h"
  shows "scaleState_h h a c = (length h, h @ [scaleState (heap_get h a) c])"
proof -
  have "foldl (\<lambda>hp key. heap_set hp (length h) key
           ((\<lambda>x key. js_mul (obj_get x key) (Num c)) ((\<lambda>hp. heap_get hp a) hp) key))
         (h @ [[]]) (obj_keys (heap_get h a)) =
        h @ [foldl (\<lambda>result key. obj_set result key
           ((\<lambda>x key. js_mul (obj_get x key) (Num c)) (heap_get h a) key)) []
             (obj_keys (heap_get h a))]"
    by (rule heap_build) (simp add: assms)
  then show ?thesis using assms by (simp add: scaleState_h_def alloc_def scaleState_def)
qed

lemma heap_get_made: "i < length m \<Longrightarrow> heap_get (h @ m) (length h + i) = m ! i"
  by (simp add: heap_get_def)

lemma heap_get_made0: "m \<noteq> [] \<Longrightarrow> heap_get (h @ m) (length h) = hd m"
  by (cases m) (simp_all add: heap_get_def nth_append)

lemma rk4Step_h_eq:
  assumes "s < length h" and "p < length h"
  shows "\<exists>made. length made = 16 \<and>
     rk4Step_h h s p t dt (call f) =
       (length h + 16, h @ made @ [rk4Step (heap_get h s) (heap_get h p) t dt f])"
proof -
  define o1 where "o1 = f (heap_get h s) (heap_get h p) (t)"
  define o2 where "o2 = scaleState o1 (ndiv dt (Fin 2))"
  define o3 where "o3 = addState (heap_get h s) o2"
  define o4 where "o4 = f o3 (heap_get h p) (nadd t (ndiv dt (Fin 2)))"
  define o5 where "o5 = scaleState o4 (ndiv dt (Fin 2))"
  define o6 where "o6 = addState (heap_get h s) o5"
  define o7 where "o7 = f o6 (heap_get h p) (nadd t (ndiv dt (Fin 2)))"
  define o8 where "o8 = scaleState o7 (dt)"
  define o9 where "o9 = addState (heap_get h s) o8"
  define o10 where "o10 = f o9 (heap_get h p) (nadd t dt)"
  define o11 where "o11 = scaleState o4 (Fin 2)"
  define o12 where "o12 = addState o1 o11"
  define o13 where "o13 = scaleState o7 (Fin 2)"
  define o14 where "o14 = addState o13 o10"
  define o15 where "o15 = addState o12 o14"
  define o16 where "o16 = scaleState o15 (ndiv dt (Fin 6))"
  have last: "rk4Step (heap_get h s) (heap_get h p) t dt f = addState (heap_get h s) o16"
    unfolding rk4Step_def Let_def o16_def o15_def o14_def o13_def o12_def o11_def o10_def o9_def o8_def o7_def o6_def o5_def o4_def o3_def o2_def o1_def by (rule refl)
  note ev = call_def alloc_def addState_h_eq scaleState_h_eq heap_get_def nth_append
  have e1: "call f (h) (s) (p) (t) = (length h, h @ [o1])"
    using assms by (simp add: ev o1_def)
  have e2: "scaleState_h (h @ [o1]) (length h) (ndiv dt (Fin 2)) = (length h + 1, h @ [o1, o2])"
    using assms by (simp add: ev o2_def)
  have e3: "addState_h (h @ [o1, o2]) (s) (length h + 1) = (length h + 2, h @ [o1, o2, o3])"
    using assms by (simp add: ev o3_def)
  have e4: "call f (h @ [o1, o2, o3]) (length h + 2) (p) (nadd t (ndiv dt (Fin 2))) = (length h + 3, h @ [o1, o2, o3, o4])"
    using assms by (simp add: ev o4_def)
  have e5: "scaleState_h (h @ [o1, o2, o3, o4]) (length h + 3) (ndiv dt (Fin 2)) = (length h + 4, h @ [o1, o2, o3, o4, o5])"
    using assms by (simp add: ev o5_def)
  have e6: "addState_h (h @ [o1, o2, o3, o4, o5]) (s) (length h + 4) = (length h + 5, h @ [o1, o2, o3, o4, o5, o6])"
    using assms by (simp add: ev o6_def)
  have e7: "call f (h @ [o1, o2, o3, o4, o5, o6]) (length h + 5) (p) (nadd t (ndiv dt (Fin 2))) = (length h + 6, h @ [o1, o2, o3, o4, o5, o6, o7])"
    using assms by (simp add: ev o7_def)
  have e8: "scaleState_h (h @ [o1, o2, o3, o4, o5, o6, o7]) (length h + 6) (dt) = (length h + 7, h @ [o1, o2, o3, o4, o5, o6, o7, o8])"
    using assms by (simp add: ev o8_def)
  have e9: "addState_h (h @ [o1, o2, o3, o4, o5, o6, o7, o8]) (s) (length h + 7) = (length h + 8, h @ [o1, o2, o3, o4, o5, o6, o7, o8, o9])"
    using assms by (simp add: ev o9_def)
  have e10: "call f (h @ [o1, o2, o3, o4, o5, o6, o7, o8, o9]) (length h + 8) (p) (nadd t dt) = (length h + 9, h @ [o1, o2, o3, o4, o5, o6, o7, o8, o9, o10])"
    using assms by (simp add: ev o10_def)
  have e11: "scaleState_h (h @ [o1, o2, o3, o4, o5, o6, o7, o8, o9, o10]) (length h + 3) (Fin 2) = (length h + 10, h @ [o1, o2, o3, o4, o5, o6, o7, o8, o9, o10, o11])"
    using assms by (simp add: ev o11_def)
  have e12: "addState_h (h @ [o1, o2, o3, o4, o5, o6, o7, o8, o9, o10, o11]) (length h) (length h + 10) = (length h + 11, h @ [o1, o2, o3, o4, o5, o6, o7, o8, o9, o10, o11, o12])"
    using assms by (simp add: ev o12_def)
  have e13: "scaleState_h (h @ [o1, o2, o3, o4, o5, o6, o7, o8, o9, o10, o11, o12]) (length h + 6) (Fin 2) = (length h + 12, h @ [o1, o2, o3, o4, o5, o6, o7, o8, o9, o10, o11, o12, o13])"
    using assms by (simp add: ev o13_def)
  have e14: "addState_h (h @ [o1, o2, o3, o4, o5, o6, o7, o8, o9, o10, o11, o12, o13]) (length h + 12) (length h + 9) = (length h + 13, h @ [o1, o2, o3, o4, o5, o6, o7, o8, o9, o10, o11, o12, o13, o14])"
    using assms by (simp add: ev o14_def)
  have e15: "addState_h (h @ [o1, o2, o3, o4, o5, o6, o7, o8, o9, o10, o11, o12, o13, o14]) (length h + 11) (length h + 13) = (length h + 14, h @ [o1, o2, o3, o4, o5, o6, o7, o8, o9, o10, o11, o12, o13, o14, o15])"
    using assms by (simp add: ev o15_def)
  have e16: "scaleState_h (h @ [o1, o2, o3, o4, o5, o6, o7, o8, o9, o10, o11, o12, o13, o14, o15]) (length h + 14) (ndiv dt (Fin 6)) = (length h + 15, h @ [o1, o2, o3, o4, o5, o6, o7, o8, o9, o10, o11, o12, o13, o14, o15, o16])"
    using assms by (simp add: ev o16_def)
  have e17: "addState_h (h @ [o1, o2, o3, o4, o5, o6, o7, o8, o9, o10, o11, o12, o13, o14, o15, o16]) (s) (length h + 15) = (length h + 16, h @ [o1, o2, o3, o4, o5, o6, o7, o8, o9, o10, o11, o12, o13, o14, o15, o16] @ [addState (heap_get h s) o16])"
    using assms by (simp add: ev)
  have "rk4Step_h h s p t dt (call f) = (length h + 16, (h @ [o1, o2, o3, o4, o5, o6, o7, o8, o9, o10, o11, o12, o13, o14, o15, o16]) @ [addState (heap_get h s) o16])"
    unfolding rk4Step_h_def
    by (simp only: Let_def prod.case e1 e2 e3 e4 e5 e6 e7 e8 e9 e10 e11 e12 e13 e14 e15 e16 e17
        append_assoc)
  then have "length [o1, o2, o3, o4, o5, o6, o7, o8, o9, o10, o11, o12, o13, o14, o15, o16] = 16 \<and>
      rk4Step_h h s p t dt (call f) =
        (length h + 16, h @ [o1, o2, o3, o4, o5, o6, o7, o8, o9, o10, o11, o12, o13, o14, o15, o16] @ [rk4Step (heap_get h s) (heap_get h p) t dt f])"
    by (simp add: last)
  then show ?thesis by blast
qed









end
